theory Spec2Isabelle
  imports Main "HOL-Library.Word"
begin

section \<open>Go values: errors and formatted messages\<close>

text \<open>
  A Go \<open>error\<close> interface value is \<open>go_error option\<close>, \<open>None\<close> being the nil error.
  The dynamic types that \<open>packages/wua_windows.go\<close> tells apart are the automation
  library's \<open>*ole.OleError\<close> (with its sub-error) and \<open>ole.EXCEPINFO\<close> (with its status
  code); an error built by \<open>fmt.Errorf\<close> keeps its format string and its arguments, so
  that no rendering of \<open>%v\<close>, \<open>%d\<close> or \<open>%q\<close> has to be modelled; \<open>ErrorString\<close> is any
  other error. \<open>NilOleError\<close> is a non-nil interface value that holds a nil pointer of type
  \<open>*ole.OleError\<close>: a type assertion to \<open>*ole.OleError\<close> succeeds on it, and a method that
  reads a field through the pointer dereferences nil.
\<close>

datatype go_error =
    OleError (ole_Code: "32 word") (ole_description: string) (SubError: "go_error option")
  | NilOleError
  | EXCEPINFO (SCODE: "32 word")
  | FmtError string "fmt_arg list"
  | ErrorString string
and fmt_arg =
    ArgErr go_error
  | ArgInt int
  | ArgStr string
  | ArgValue "16 word" "64 word" string

text \<open>The verb \<open>%x\<close> of \<open>fmt\<close> on an unsigned integer: lower-case hexadecimal digits.\<close>

definition hex_digit :: "nat \<Rightarrow> char" where
  "hex_digit d = ''0123456789abcdef'' ! d"

function hex_nat :: "nat \<Rightarrow> string" where
  "hex_nat n = (if n < 16 then [hex_digit n] else hex_nat (n div 16) @ [hex_digit (n mod 16)])"
  by pat_completeness auto
termination
  by (relation "measure id") auto

declare hex_nat.simps [simp del]

section \<open>The automation platform\<close>

text \<open>
  A \<open>VARIANT\<close> of the automation library has a type tag \<open>VT\<close> (16 bits) and a raw
  64-bit \<open>Val\<close>; for a string the text \<open>Val\<close> points to is \<open>bstrVal\<close>, for an object the
  object is \<open>pdispVal\<close> (\<open>None\<close> for a null pointer). The parameter \<open>'p\<close> is what
  stands for an object: the platform's object on the platform side, an interface pointer
  on the program's side.
\<close>

datatype 'p variant =
  VARIANT (VT: "16 word") (Val: "64 word") (bstrVal: string) (pdispVal: "'p option")

definition VT_I4 :: "16 word" where "VT_I4 = 3"
definition VT_BSTR :: "16 word" where "VT_BSTR = 8"
definition VT_DISPATCH :: "16 word" where "VT_DISPATCH = 9"
definition VT_BOOL :: "16 word" where "VT_BOOL = 11"

text \<open>Arguments of an automation call: an index, a string, or an interface pointer
  (by its handle; \<open>None\<close> is nil).\<close>

datatype arg = IntArg int | StrArg string | DispArg "nat option"

text \<open>
  An automation object answers \<open>QueryInterface\<close>, property reads, method calls and
  property writes; each answer is an error or a value. The platform is a parameter of
  every operation: what it answers is not decided by the program.
\<close>

datatype com_object = ComObject
  (queryInterface: "go_error + com_object")
  (getProperty: "string \<Rightarrow> arg list \<Rightarrow> go_error + com_object variant")
  (callMethod: "string \<Rightarrow> arg list \<Rightarrow> go_error + com_object variant")
  (putProperty: "string \<Rightarrow> arg list \<Rightarrow> go_error + com_object variant")

text \<open>
  What the process gets from outside the file: the result of the package's helper
  \<open>coInitializeEx\<close> (its code is not part of the sources at hand, so its result is
  a parameter), object creation by program id, and the library's decoding of a date.
\<close>

record platform =
  plat_coInitializeEx :: "go_error option"
  plat_CreateObject :: "string \<Rightarrow> go_error + com_object"
  plat_GetVariantDate :: "64 word \<Rightarrow> go_error + int"

section \<open>The process state\<close>

text \<open>
  An interface pointer holds one reference to an object; \<open>hid\<close> names the reference.
  A Go pointer \<open>*ole.IDispatch\<close> may be nil: \<open>IDispatch = com_ptr option\<close>.
\<close>

datatype com_ptr = ComPtr (hid: nat) (target: com_object)

type_synonym IDispatch = "com_ptr option"

datatype call_result = Failed | Got "16 word" "64 word" "nat option"

text \<open>
  Everything the program does to the outside is an event of the trace: the global
  mutex, the subsystem's initialisation, every automation call with its outcome (and the
  handle of the reference it hands over, if any), every release, every log line.
\<close>

datatype event =
    MutexLock
  | MutexUnlock
  | CoInitialize bool
  | CoUninitialize
  | Created string "nat option"
  | Queried nat "nat option"
  | PropertyGet nat string "arg list" call_result
  | PropertyPut nat string "arg list" call_result
  | MethodCall nat string "arg list" call_result
  | Released nat
  | Debugf string "fmt_arg list"
  | Errorf string "fmt_arg list"

record world =
  mutex :: bool
  next_handle :: nat
  trace :: "event list"

text \<open>A call either returns or panics (a nil pointer is dereferenced, or the mutex is
  unlocked while it is not locked).\<close>

datatype 'a outcome = Return 'a | Panic

definition emit :: "event \<Rightarrow> world \<Rightarrow> world" where
  "emit ev w = w\<lparr>trace := trace w @ [ev]\<rparr>"

text \<open>\<open>var wuaSession sync.Mutex\<close>: \<open>Lock\<close> does not return while the mutex is held
  (\<open>None\<close>); \<open>Unlock\<close> of an unlocked mutex is a fatal error.\<close>

definition wuaSession_Lock :: "world \<Rightarrow> world option" where
  "wuaSession_Lock w = (if mutex w then None else Some (emit MutexLock (w\<lparr>mutex := True\<rparr>)))"

definition wuaSession_Unlock :: "world \<Rightarrow> unit outcome \<times> world" where
  "wuaSession_Unlock w =
     (if mutex w then (Return (), emit MutexUnlock (w\<lparr>mutex := False\<rparr>)) else (Panic, w))"

definition coInitializeEx :: "platform \<Rightarrow> world \<Rightarrow> go_error option \<times> world" where
  "coInitializeEx p w =
     (plat_coInitializeEx p, emit (CoInitialize (plat_coInitializeEx p = None)) w)"

definition CoUninitialize_call :: "world \<Rightarrow> world" where
  "CoUninitialize_call w = emit CoUninitialize w"

text \<open>\<open>oleutil.CreateObject\<close> and \<open>IUnknown.QueryInterface\<close>: each success hands over a
  new reference.\<close>

definition CreateObject :: "platform \<Rightarrow> string \<Rightarrow> world \<Rightarrow> (go_error + com_ptr) \<times> world" where
  "CreateObject p programID w =
     (case plat_CreateObject p programID of
        Inl err \<Rightarrow> (Inl err, emit (Created programID None) w)
      | Inr obj \<Rightarrow>
          (Inr (ComPtr (next_handle w) obj),
           (emit (Created programID (Some (next_handle w))) w)\<lparr>next_handle := Suc (next_handle w)\<rparr>))"

definition QueryInterface :: "com_ptr \<Rightarrow> world \<Rightarrow> (go_error + com_ptr) \<times> world" where
  "QueryInterface unknown w =
     (case queryInterface (target unknown) of
        Inl err \<Rightarrow> (Inl err, emit (Queried (hid unknown) None) w)
      | Inr obj \<Rightarrow>
          (Inr (ComPtr (next_handle w) obj),
           (emit (Queried (hid unknown) (Some (next_handle w))) w)\<lparr>next_handle := Suc (next_handle w)\<rparr>))"

text \<open>
  \<open>IDispatch.GetProperty\<close>, \<open>CallMethod\<close> and \<open>PutProperty\<close>: on a nil pointer the call
  panics; otherwise the object answers, and an object in the answer is a new reference.
\<close>

definition invoke ::
  "(nat \<Rightarrow> string \<Rightarrow> arg list \<Rightarrow> call_result \<Rightarrow> event) \<Rightarrow>
   (com_object \<Rightarrow> string \<Rightarrow> arg list \<Rightarrow> go_error + com_object variant) \<Rightarrow>
   IDispatch \<Rightarrow> string \<Rightarrow> arg list \<Rightarrow> world \<Rightarrow> (go_error + com_ptr variant) outcome \<times> world" where
  "invoke mk answer disp name args w =
     (case disp of
        None \<Rightarrow> (Panic, w)
      | Some d \<Rightarrow>
          (case answer (target d) name args of
             Inl err \<Rightarrow> (Return (Inl err), emit (mk (hid d) name args Failed) w)
           | Inr v \<Rightarrow>
               (case (if VT v = VT_DISPATCH then pdispVal v else None) of
                  None \<Rightarrow>
                    (Return (Inr (VARIANT (VT v) (Val v) (bstrVal v) None)),
                     emit (mk (hid d) name args (Got (VT v) (Val v) None)) w)
                | Some obj \<Rightarrow>
                    (Return (Inr (VARIANT (VT v) (Val v) (bstrVal v) (Some (ComPtr (next_handle w) obj)))),
                     (emit (mk (hid d) name args (Got (VT v) (Val v) (Some (next_handle w)))) w)
                       \<lparr>next_handle := Suc (next_handle w)\<rparr>))))"

definition GetProperty ::
  "IDispatch \<Rightarrow> string \<Rightarrow> arg list \<Rightarrow> world \<Rightarrow> (go_error + com_ptr variant) outcome \<times> world" where
  "GetProperty = invoke PropertyGet getProperty"

definition CallMethod ::
  "IDispatch \<Rightarrow> string \<Rightarrow> arg list \<Rightarrow> world \<Rightarrow> (go_error + com_ptr variant) outcome \<times> world" where
  "CallMethod = invoke MethodCall callMethod"

definition PutProperty ::
  "IDispatch \<Rightarrow> string \<Rightarrow> arg list \<Rightarrow> world \<Rightarrow> (go_error + com_ptr variant) outcome \<times> world" where
  "PutProperty = invoke PropertyPut putProperty"

definition Release :: "IDispatch \<Rightarrow> world \<Rightarrow> unit outcome \<times> world" where
  "Release disp w =
     (case disp of None \<Rightarrow> (Panic, w) | Some d \<Rightarrow> (Return (), emit (Released (hid d)) w))"

text \<open>The library's conversions of a \<open>VARIANT\<close>: \<open>ToIDispatch\<close> is nil and \<open>ToString\<close>
  is empty unless the tag fits; \<open>Value()\<close> has the dynamic type \<open>int32\<close> exactly for the
  tag \<open>VT_I4\<close>, so the assertion \<open>v.Value().(int32)\<close> in its two-result form is
  \<open>Value_int32\<close>.\<close>

definition ToIDispatch :: "com_ptr variant \<Rightarrow> IDispatch" where
  "ToIDispatch v = (if VT v \<noteq> VT_DISPATCH then None else pdispVal v)"

definition ToString :: "'p variant \<Rightarrow> string" where
  "ToString v = (if VT v \<noteq> VT_BSTR then '''' else bstrVal v)"

definition Value_int32 :: "'p variant \<Rightarrow> 32 word \<times> bool" where
  "Value_int32 v = (if VT v = VT_I4 then (ucast (Val v), True) else (0, False))"

definition disp_arg :: "IDispatch \<Rightarrow> arg" where
  "disp_arg d = DispArg (map_option hid d)"

definition value_arg :: "'p variant \<Rightarrow> fmt_arg" where
  "value_arg v = ArgValue (VT v) (Val v) (bstrVal v)"

text \<open>\<open>defer cleanup()\<close>: the cleanup runs when the body is left, whether it returned
  or panicked; the call panics if either did.\<close>

definition deferred ::
  "(world \<Rightarrow> unit outcome \<times> world) \<Rightarrow> (world \<Rightarrow> 'a outcome \<times> world) \<Rightarrow> world \<Rightarrow> 'a outcome \<times> world" where
  "deferred cleanup body w =
     (case body w of
        (r, w1) \<Rightarrow> (case cleanup w1 of (Return _, w2) \<Rightarrow> (r, w2) | (Panic, w2) \<Rightarrow> (Panic, w2)))"

section \<open>The diagnostic decoder\<close>

text \<open>\<open>GetScodeString\<close>: the two type assertions are in the two-result form. The first
  succeeds on a nil \<open>*ole.OleError\<close> as well, and \<open>oleError.SubError()\<close> then reads the
  field \<open>subError\<close> through the nil pointer: the call panics.\<close>

definition GetScodeString :: "go_error option \<Rightarrow> world \<Rightarrow> string outcome \<times> world" where
  "GetScodeString err w =
     (let scodeStr = '''' in
      case err of
        Some NilOleError \<Rightarrow> (Panic, w)
      | Some (OleError c d sub) \<Rightarrow>
          (case sub of
             Some (EXCEPINFO sc) \<Rightarrow>
               (Return ('' SCODE: 0x'' @ hex_nat (unat sc)),
                emit (Errorf ''Error with SCODE was founded. SCODE : 0x%x'' [ArgInt (uint sc)]) w)
           | _ \<Rightarrow> (Return scodeStr, w))
      | _ \<Rightarrow> (Return scodeStr, w))"

section \<open>The session manager\<close>

datatype IUpdateSession = IUpdateSession (session_IDispatch: IDispatch)

datatype IUpdateCollection = IUpdateCollection (collection_IDispatch: IDispatch)

datatype IUpdate = IUpdate (update_IDispatch: IDispatch)

text \<open>\<open>func (s *IUpdateSession) Close()\<close>\<close>

definition Close :: "IUpdateSession \<Rightarrow> world \<Rightarrow> unit outcome \<times> world" where
  "Close s w =
     (case (if session_IDispatch s \<noteq> None then Release (session_IDispatch s) w else (Return (), w)) of
        (Panic, w1) \<Rightarrow> (Panic, w1)
      | (Return _, w1) \<Rightarrow> wuaSession_Unlock (CoUninitialize_call w1))"

text \<open>\<open>func NewUpdateSession() (*IUpdateSession, error)\<close>; \<open>None\<close> when \<open>Lock\<close> does not
  return.\<close>

definition NewUpdateSession ::
  "platform \<Rightarrow> world \<Rightarrow> ((go_error + IUpdateSession) outcome \<times> world) option" where
  \<open>NewUpdateSession p w =
     (case wuaSession_Lock w of
        None \<Rightarrow> None
      | Some w0 \<Rightarrow>
          Some
            (case coInitializeEx p w0 of
               (Some err, w1) \<Rightarrow>
                 (case wuaSession_Unlock w1 of
                    (Panic, w2) \<Rightarrow> (Panic, w2)
                  | (Return _, w2) \<Rightarrow> (Return (Inl err), w2))
             | (None, w1) \<Rightarrow>
                 (let s = IUpdateSession None in
                  case CreateObject p ''Microsoft.Update.Session'' w1 of
                    (Inl err, w2) \<Rightarrow>
                      (case Close s w2 of
                         (Panic, w3) \<Rightarrow> (Panic, w3)
                       | (Return _, w3) \<Rightarrow>
                           (Return (Inl (FmtError ''oleutil.CreateObject("Microsoft.Update.Session"): %v'' [ArgErr err])), w3))
                  | (Inr unknown, w2) \<Rightarrow>
                      (case QueryInterface unknown w2 of
                         (Inl err, w3) \<Rightarrow>
                           (case Release (Some unknown) w3 of
                              (Panic, w4) \<Rightarrow> (Panic, w4)
                            | (Return _, w4) \<Rightarrow>
                                (case Close s w4 of
                                   (Panic, w5) \<Rightarrow> (Panic, w5)
                                 | (Return _, w5) \<Rightarrow>
                                     (Return (Inl (FmtError ''error creating Dispatch object from Microsoft.Update.Session connection: %v'' [ArgErr err])), w5)))
                       | (Inr disp, w3) \<Rightarrow> (Return (Inr (IUpdateSession (Some disp))), w3)))))\<close>

section \<open>Update collections\<close>

text \<open>\<open>func NewUpdateCollection() (*IUpdateCollection, error)\<close>\<close>

definition NewUpdateCollection ::
  "platform \<Rightarrow> world \<Rightarrow> (go_error + IUpdateCollection) outcome \<times> world" where
  \<open>NewUpdateCollection p w =
     (case CreateObject p ''Microsoft.Update.UpdateColl'' w of
        (Inl err, w1) \<Rightarrow>
          (Return (Inl (FmtError ''oleutil.CreateObject("Microsoft.Update.UpdateColl"): %v'' [ArgErr err])), w1)
      | (Inr updateCollObj, w1) \<Rightarrow>
          deferred (Release (Some updateCollObj))
            (\<lambda>w1. case QueryInterface updateCollObj w1 of
                    (Inl err, w2) \<Rightarrow> (Return (Inl err), w2)
                  | (Inr updateColl, w2) \<Rightarrow> (Return (Inr (IUpdateCollection (Some updateColl))), w2))
            w1)\<close>

text \<open>\<open>func (c *IUpdateCollection) Add(updt *IUpdate) error\<close>\<close>

definition Add :: "IUpdateCollection \<Rightarrow> IUpdate \<Rightarrow> world \<Rightarrow> go_error option outcome \<times> world" where
  \<open>Add c updt w =
     (case CallMethod (collection_IDispatch c) ''Add'' [disp_arg (update_IDispatch updt)] w of
        (Panic, w1) \<Rightarrow> (Panic, w1)
      | (Return (Inl err), w1) \<Rightarrow>
          (Return (Some (FmtError ''IUpdateCollection.CallMethod("Add", updt): %v'' [ArgErr err])), w1)
      | (Return (Inr _), w1) \<Rightarrow> (Return None, w1))\<close>

text \<open>\<open>func (c *IUpdateCollection) RemoveAt(i int) error\<close>\<close>

definition RemoveAt :: "IUpdateCollection \<Rightarrow> int \<Rightarrow> world \<Rightarrow> go_error option outcome \<times> world" where
  \<open>RemoveAt c i w =
     (case CallMethod (collection_IDispatch c) ''RemoveAt'' [IntArg i] w of
        (Panic, w1) \<Rightarrow> (Panic, w1)
      | (Return (Inl err), w1) \<Rightarrow>
          (Return (Some (FmtError ''IUpdateCollection.CallMethod("RemoveAt", %d): %v'' [ArgInt i, ArgErr err])), w1)
      | (Return (Inr _), w1) \<Rightarrow> (Return None, w1))\<close>

text \<open>\<open>func GetCount(dis *ole.IDispatch) (int32, error)\<close>: the result of the type
  assertion's second component is dropped, as in the source.\<close>

definition GetCount :: "IDispatch \<Rightarrow> world \<Rightarrow> (32 word \<times> go_error option) outcome \<times> world" where
  \<open>GetCount dis w =
     (case GetProperty dis ''Count'' [] w of
        (Panic, w1) \<Rightarrow> (Panic, w1)
      | (Return (Inl err), w1) \<Rightarrow>
          (Return (0, Some (FmtError ''IDispatch.GetProperty("Count"): %v'' [ArgErr err])), w1)
      | (Return (Inr countRaw), w1) \<Rightarrow>
          (let (count, _) = Value_int32 countRaw in (Return (count, None), w1)))\<close>

text \<open>\<open>func (c *IUpdateCollection) Count() (int32, error)\<close>\<close>

definition Count :: "IUpdateCollection \<Rightarrow> world \<Rightarrow> (32 word \<times> go_error option) outcome \<times> world" where
  "Count c w = GetCount (collection_IDispatch c) w"

text \<open>\<open>func (c *IUpdateCollection) Item(i int) (*IUpdate, error)\<close>\<close>

definition Item :: "IUpdateCollection \<Rightarrow> int \<Rightarrow> world \<Rightarrow> (go_error + IUpdate) outcome \<times> world" where
  \<open>Item c i w =
     (case GetProperty (collection_IDispatch c) ''Item'' [IntArg i] w of
        (Panic, w1) \<Rightarrow> (Panic, w1)
      | (Return (Inl err), w1) \<Rightarrow>
          (Return (Inl (FmtError ''IUpdateCollection.GetProperty("Item", %d): %v'' [ArgInt i, ArgErr err])), w1)
      | (Return (Inr updtRaw), w1) \<Rightarrow> (Return (Inr (IUpdate (ToIDispatch updtRaw))), w1))\<close>

section \<open>Extraction of one update\<close>

text \<open>The loop of \<open>kbaIDs\<close>: \<open>for i := 0; i < int(count); i++\<close>.\<close>

function kbaIDs_loop ::
  "IDispatch \<Rightarrow> int \<Rightarrow> int \<Rightarrow> string list \<Rightarrow> world \<Rightarrow> (string list \<times> go_error option) outcome \<times> world" where
  \<open>kbaIDs_loop kbArticleIDs count i ss w =
     (if i < count then
        (case GetProperty kbArticleIDs ''Item'' [IntArg i] w of
           (Panic, w1) \<Rightarrow> (Panic, w1)
         | (Return (Inl err), w1) \<Rightarrow>
             (Return ([], Some (FmtError ''kbArticleIDs.GetProperty("Item", %d): %v'' [ArgInt i, ArgErr err])), w1)
         | (Return (Inr item), w1) \<Rightarrow> kbaIDs_loop kbArticleIDs count (i + 1) (ss @ [ToString item]) w1)
      else (Return (ss, None), w))\<close>
  by pat_completeness auto
termination
  by (relation "measure (\<lambda>(kbArticleIDs, count, i, ss, w). nat (count - i))") auto

declare kbaIDs_loop.simps [simp del]

text \<open>\<open>func (u *IUpdate) kbaIDs() ([]string, error)\<close>\<close>

definition kbaIDs :: "IUpdate \<Rightarrow> world \<Rightarrow> (string list \<times> go_error option) outcome \<times> world" where
  \<open>kbaIDs u w =
     (case GetProperty (update_IDispatch u) ''KBArticleIDs'' [] w of
        (Panic, w1) \<Rightarrow> (Panic, w1)
      | (Return (Inl err), w1) \<Rightarrow>
          (Return ([], Some (FmtError ''IUpdate.GetProperty("KBArticleIDs"): %v'' [ArgErr err])), w1)
      | (Return (Inr kbArticleIDsRaw), w1) \<Rightarrow>
          (let kbArticleIDs = ToIDispatch kbArticleIDsRaw in
           deferred (Release kbArticleIDs)
             (\<lambda>w1. case GetCount kbArticleIDs w1 of
                     (Panic, w2) \<Rightarrow> (Panic, w2)
                   | (Return (count, Some err), w2) \<Rightarrow> (Return ([], Some err), w2)
                   | (Return (count, None), w2) \<Rightarrow>
                       (if count = 0 then (Return ([], None), w2)
                        else kbaIDs_loop kbArticleIDs (sint count) 0 [] w2))
             w1))\<close>

text \<open>The loop of \<open>categories\<close>. Each \<open>defer item.Release()\<close> of the loop body runs
  when the function is left, the last one registered first: the rest of the loop is the
  body that the release is deferred over.\<close>

function categories_loop ::
  "IDispatch \<Rightarrow> int \<Rightarrow> int \<Rightarrow> string list \<Rightarrow> string list \<Rightarrow> world \<Rightarrow>
   (string list \<times> string list \<times> go_error option) outcome \<times> world" where
  \<open>categories_loop cat count i cns cids w =
     (if i < count then
        (case GetProperty cat ''Item'' [IntArg i] w of
           (Panic, w1) \<Rightarrow> (Panic, w1)
         | (Return (Inl err), w1) \<Rightarrow>
             (Return ([], [], Some (FmtError ''cat.GetProperty("Item", %d): %v'' [ArgInt i, ArgErr err])), w1)
         | (Return (Inr itemRaw), w1) \<Rightarrow>
             (let item = ToIDispatch itemRaw in
              case (case GetProperty item ''Name'' [] w1 of
                      (Panic, w2) \<Rightarrow> (Panic, w2)
                    | (Return (Inl err), w2) \<Rightarrow>
                        (Return ([], [], Some (FmtError ''item.GetProperty("Name"): %v'' [ArgErr err])), w2)
                    | (Return (Inr name), w2) \<Rightarrow>
                        (case GetProperty item ''CategoryID'' [] w2 of
                           (Panic, w3) \<Rightarrow> (Panic, w3)
                         | (Return (Inl err), w3) \<Rightarrow>
                             (Return ([], [], Some (FmtError ''item.GetProperty("CategoryID"): %v'' [ArgErr err])), w3)
                         | (Return (Inr categoryID), w3) \<Rightarrow>
                             categories_loop cat count (i + 1)
                               (cns @ [ToString name]) (cids @ [ToString categoryID]) w3)) of
                (r, w4) \<Rightarrow>
                  (case Release item w4 of
                     (Return _, w5) \<Rightarrow> (r, w5)
                   | (Panic, w5) \<Rightarrow> (Panic, w5))))
      else (Return (cns, cids, None), w))\<close>
  by pat_completeness auto
termination
  by (relation "measure (\<lambda>(cat, count, i, cns, cids, w). nat (count - i))") auto

declare categories_loop.simps [simp del]

text \<open>\<open>func (u *IUpdate) categories() ([]string, []string, error)\<close>\<close>

definition categories ::
  "IUpdate \<Rightarrow> world \<Rightarrow> (string list \<times> string list \<times> go_error option) outcome \<times> world" where
  \<open>categories u w =
     (case GetProperty (update_IDispatch u) ''Categories'' [] w of
        (Panic, w1) \<Rightarrow> (Panic, w1)
      | (Return (Inl err), w1) \<Rightarrow>
          (Return ([], [], Some (FmtError ''IUpdate.GetProperty("Categories"): %v'' [ArgErr err])), w1)
      | (Return (Inr catRaw), w1) \<Rightarrow>
          (let cat = ToIDispatch catRaw in
           deferred (Release cat)
             (\<lambda>w1. case GetCount cat w1 of
                     (Panic, w2) \<Rightarrow> (Panic, w2)
                   | (Return (count, Some err), w2) \<Rightarrow> (Return ([], [], Some err), w2)
                   | (Return (count, None), w2) \<Rightarrow>
                       (if count = 0 then (Return ([], [], None), w2)
                        else categories_loop cat (sint count) 0 [] [] w2))
             w1))\<close>

text \<open>The loop of \<open>moreInfoURLs\<close>.\<close>

function moreInfoURLs_loop ::
  "IDispatch \<Rightarrow> int \<Rightarrow> int \<Rightarrow> string list \<Rightarrow> world \<Rightarrow> (string list \<times> go_error option) outcome \<times> world" where
  \<open>moreInfoURLs_loop moreInfoURLs count i ss w =
     (if i < count then
        (case GetProperty moreInfoURLs ''Item'' [IntArg i] w of
           (Panic, w1) \<Rightarrow> (Panic, w1)
         | (Return (Inl err), w1) \<Rightarrow>
             (Return ([], Some (FmtError ''moreInfoURLs.GetProperty("Item", %d): %v'' [ArgInt i, ArgErr err])), w1)
         | (Return (Inr item), w1) \<Rightarrow> moreInfoURLs_loop moreInfoURLs count (i + 1) (ss @ [ToString item]) w1)
      else (Return (ss, None), w))\<close>
  by pat_completeness auto
termination
  by (relation "measure (\<lambda>(moreInfoURLs, count, i, ss, w). nat (count - i))") auto

declare moreInfoURLs_loop.simps [simp del]

text \<open>\<open>func (u *IUpdate) moreInfoURLs() ([]string, error)\<close>\<close>

definition moreInfoURLs :: "IUpdate \<Rightarrow> world \<Rightarrow> (string list \<times> go_error option) outcome \<times> world" where
  \<open>moreInfoURLs u w =
     (case GetProperty (update_IDispatch u) ''MoreInfoURLs'' [] w of
        (Panic, w1) \<Rightarrow> (Panic, w1)
      | (Return (Inl err), w1) \<Rightarrow>
          (Return ([], Some (FmtError ''IUpdate.GetProperty("MoreInfoURLs"): %v'' [ArgErr err])), w1)
      | (Return (Inr moreInfoURLsRaw), w1) \<Rightarrow>
          (let moreInfoURLs = ToIDispatch moreInfoURLsRaw in
           deferred (Release moreInfoURLs)
             (\<lambda>w1. case GetCount moreInfoURLs w1 of
                     (Panic, w2) \<Rightarrow> (Panic, w2)
                   | (Return (count, Some err), w2) \<Rightarrow> (Return ([], Some err), w2)
                   | (Return (count, None), w2) \<Rightarrow>
                       (if count = 0 then (Return ([], None), w2)
                        else moreInfoURLs_loop moreInfoURLs (sint count) 0 [] w2))
             w1))\<close>

text \<open>The output record, with the fields \<open>extractPkg\<close> fills in.\<close>

record WUAPackage =
  Title :: string
  Description :: string
  SupportURL :: string
  KBArticleIDs :: "string list"
  UpdateID :: string
  Categories :: "string list"
  CategoryIDs :: "string list"
  MoreInfoURLs :: "string list"
  RevisionNumber :: "32 word"
  LastDeploymentChangeTime :: int

text \<open>\<open>func (c *IUpdateCollection) extractPkg(item int) (*WUAPackage, error)\<close>, after
  \<open>c.Item(item)\<close> has returned the update and its release has been deferred.\<close>

definition extractPkg_body ::
  "platform \<Rightarrow> IUpdate \<Rightarrow> world \<Rightarrow> (go_error + WUAPackage) outcome \<times> world" where
  \<open>extractPkg_body p updt w =
     (case GetProperty (update_IDispatch updt) ''Title'' [] w of
        (Panic, w1) \<Rightarrow> (Panic, w1)
      | (Return (Inl err), w1) \<Rightarrow>
          (Return (Inl (FmtError ''updt.GetProperty("Title"): %v'' [ArgErr err])), w1)
      | (Return (Inr title), w1) \<Rightarrow>
     (case GetProperty (update_IDispatch updt) ''Description'' [] w1 of
        (Panic, w2) \<Rightarrow> (Panic, w2)
      | (Return (Inl err), w2) \<Rightarrow>
          (Return (Inl (FmtError ''updt.GetProperty("Description"): %v'' [ArgErr err])), w2)
      | (Return (Inr description), w2) \<Rightarrow>
     (case kbaIDs updt w2 of
        (Panic, w3) \<Rightarrow> (Panic, w3)
      | (Return (kbArticleIDs, Some err), w3) \<Rightarrow> (Return (Inl err), w3)
      | (Return (kbArticleIDs, None), w3) \<Rightarrow>
     (case categories updt w3 of
        (Panic, w4) \<Rightarrow> (Panic, w4)
      | (Return (categories', categoryIDs, Some err), w4) \<Rightarrow> (Return (Inl err), w4)
      | (Return (categories', categoryIDs, None), w4) \<Rightarrow>
     (case moreInfoURLs updt w4 of
        (Panic, w5) \<Rightarrow> (Panic, w5)
      | (Return (moreInfoURLs', Some err), w5) \<Rightarrow> (Return (Inl err), w5)
      | (Return (moreInfoURLs', None), w5) \<Rightarrow>
     (case GetProperty (update_IDispatch updt) ''SupportURL'' [] w5 of
        (Panic, w6) \<Rightarrow> (Panic, w6)
      | (Return (Inl err), w6) \<Rightarrow>
          (Return (Inl (FmtError ''updt.GetProperty("SupportURL"): %v'' [ArgErr err])), w6)
      | (Return (Inr supportURL), w6) \<Rightarrow>
     (case GetProperty (update_IDispatch updt) ''LastDeploymentChangeTime'' [] w6 of
        (Panic, w7) \<Rightarrow> (Panic, w7)
      | (Return (Inl err), w7) \<Rightarrow>
          (Return (Inl (FmtError ''updt.GetProperty("LastDeploymentChangeTime"): %v'' [ArgErr err])), w7)
      | (Return (Inr lastDeploymentChangeTimeRaw), w7) \<Rightarrow>
     (case plat_GetVariantDate p (Val lastDeploymentChangeTimeRaw) of
        Inl err \<Rightarrow>
          (Return (Inl (FmtError ''ole.GetVariantDate(uint64(lastDeploymentChangeTimeRaw.Val)): %v'' [ArgErr err])), w7)
      | Inr lastDeploymentChangeTime \<Rightarrow>
     (case GetProperty (update_IDispatch updt) ''Identity'' [] w7 of
        (Panic, w8) \<Rightarrow> (Panic, w8)
      | (Return (Inl err), w8) \<Rightarrow>
          (Return (Inl (FmtError ''updt.GetProperty("Identity"): %v'' [ArgErr err])), w8)
      | (Return (Inr identityRaw), w8) \<Rightarrow>
          (let identity = ToIDispatch identityRaw in
           deferred (Release identity)
             (\<lambda>w8.
     (case GetProperty identity ''RevisionNumber'' [] w8 of
        (Panic, w9) \<Rightarrow> (Panic, w9)
      | (Return (Inl err), w9) \<Rightarrow>
          (Return (Inl (FmtError ''identity.GetProperty("RevisionNumber"): %v'' [ArgErr err])), w9)
      | (Return (Inr revisionNumber), w9) \<Rightarrow>
     (case GetProperty identity ''UpdateID'' [] w9 of
        (Panic, w10) \<Rightarrow> (Panic, w10)
      | (Return (Inl err), w10) \<Rightarrow>
          (Return (Inl (FmtError ''identity.GetProperty("UpdateID"): %v'' [ArgErr err])), w10)
      | (Return (Inr updateID), w10) \<Rightarrow>
          (Return (Inr
             \<lparr>Title = ToString title,
              Description = ToString description,
              SupportURL = ToString supportURL,
              KBArticleIDs = kbArticleIDs,
              UpdateID = ToString updateID,
              Categories = categories',
              CategoryIDs = categoryIDs,
              MoreInfoURLs = moreInfoURLs',
              RevisionNumber = ucast (Val revisionNumber),
              LastDeploymentChangeTime = lastDeploymentChangeTime\<rparr>), w10))))
             w8))))))))))\<close>

definition extractPkg ::
  "platform \<Rightarrow> IUpdateCollection \<Rightarrow> int \<Rightarrow> world \<Rightarrow> (go_error + WUAPackage) outcome \<times> world" where
  "extractPkg p c item w =
     (case Item c item w of
        (Panic, w1) \<Rightarrow> (Panic, w1)
      | (Return (Inl err), w1) \<Rightarrow> (Return (Inl err), w1)
      | (Return (Inr updt), w1) \<Rightarrow>
          deferred (Release (update_IDispatch updt)) (extractPkg_body p updt) w1)"

section \<open>Search\<close>

text \<open>\<open>func (s *IUpdateSession) GetWUAUpdateCollection(ctx, query) (*IUpdateCollection, error)\<close>\<close>

definition GetWUAUpdateCollection ::
  "IUpdateSession \<Rightarrow> string \<Rightarrow> world \<Rightarrow> (go_error + IUpdateCollection) outcome \<times> world" where
  \<open>GetWUAUpdateCollection s query w =
     (case CallMethod (session_IDispatch s) ''CreateUpdateSearcher'' [] w of
        (Panic, w1) \<Rightarrow> (Panic, w1)
      | (Return (Inl err), w1) \<Rightarrow>
          (case GetScodeString (Some err) w1 of
             (Panic, w2) \<Rightarrow> (Panic, w2)
           | (Return scode, w2) \<Rightarrow>
               (Return (Inl (FmtError (''error calling CreateUpdateSearcher: %v'' @ scode) [ArgErr err])), w2))
      | (Return (Inr searcherRaw), w1) \<Rightarrow>
          (let searcher = ToIDispatch searcherRaw in
           deferred (Release searcher)
             (\<lambda>w1.
     (case CallMethod searcher ''Search'' [StrArg query] w1 of
        (Panic, w2) \<Rightarrow> (Panic, w2)
      | (Return (Inl err), w2) \<Rightarrow>
          (case GetScodeString (Some err) w2 of
             (Panic, w3) \<Rightarrow> (Panic, w3)
           | (Return scode, w3) \<Rightarrow>
               (Return (Inl (FmtError (''error calling method Search on IUpdateSearcher: %v'' @ scode) [ArgErr err])), w3))
      | (Return (Inr resultRaw), w2) \<Rightarrow>
          (let result = ToIDispatch resultRaw in
           deferred (Release result)
             (\<lambda>w2.
     (case GetProperty result ''Updates'' [] w2 of
        (Panic, w3) \<Rightarrow> (Panic, w3)
      | (Return (Inl err), w3) \<Rightarrow>
          (case GetScodeString (Some err) w3 of
             (Panic, w4) \<Rightarrow> (Panic, w4)
           | (Return scode, w4) \<Rightarrow>
               (Return (Inl (FmtError (''error calling GetProperty Updates on ISearchResult: %v'' @ scode) [ArgErr err])), w4))
      | (Return (Inr updtsRaw), w3) \<Rightarrow>
          (Return (Inr (IUpdateCollection (ToIDispatch updtsRaw))), w3)))
             w2)))
             w1))\<close>

text \<open>The loop of \<open>WUAUpdates\<close>: \<open>for i := 0; i < int(updtCnt); i++\<close>; on an error it
  returns \<open>nil, err\<close>.\<close>

function WUAUpdates_loop ::
  "platform \<Rightarrow> IUpdateCollection \<Rightarrow> int \<Rightarrow> int \<Rightarrow> WUAPackage list \<Rightarrow> world \<Rightarrow>
   (WUAPackage list \<times> go_error option) outcome \<times> world" where
  "WUAUpdates_loop p updts updtCnt i packages w =
     (if i < updtCnt then
        (case extractPkg p updts i w of
           (Panic, w1) \<Rightarrow> (Panic, w1)
         | (Return (Inl err), w1) \<Rightarrow> (Return ([], Some err), w1)
         | (Return (Inr pkg), w1) \<Rightarrow> WUAUpdates_loop p updts updtCnt (i + 1) (packages @ [pkg]) w1)
      else (Return (packages, None), w))"
  by pat_completeness auto
termination
  by (relation "measure (\<lambda>(p, updts, updtCnt, i, packages, w). nat (updtCnt - i))") auto

declare WUAUpdates_loop.simps [simp del]

text \<open>\<open>func WUAUpdates(ctx context.Context, query string) ([]WUAPackage, error)\<close>, after
  the collection has been found and its release deferred; a nil slice is the empty list.\<close>

definition WUAUpdates_body ::
  "platform \<Rightarrow> IUpdateCollection \<Rightarrow> world \<Rightarrow> (WUAPackage list \<times> go_error option) outcome \<times> world" where
  "WUAUpdates_body p updts w =
     (case Count updts w of
        (Panic, w1) \<Rightarrow> (Panic, w1)
      | (Return (updtCnt, Some err), w1) \<Rightarrow> (Return ([], Some err), w1)
      | (Return (updtCnt, None), w1) \<Rightarrow>
          (if updtCnt = 0 then (Return ([], None), w1)
           else WUAUpdates_loop p updts (sint updtCnt) 0 [] w1))"

text \<open>\<open>func WUAUpdates(ctx context.Context, query string) ([]WUAPackage, error)\<close>; \<open>None\<close>
  when \<open>NewUpdateSession\<close> does not return.\<close>

definition WUAUpdates ::
  "platform \<Rightarrow> string \<Rightarrow> world \<Rightarrow> ((WUAPackage list \<times> go_error option) outcome \<times> world) option" where
  \<open>WUAUpdates p query w =
     (case NewUpdateSession p w of
        None \<Rightarrow> None
      | Some (Panic, w1) \<Rightarrow> Some (Panic, w1)
      | Some (Return (Inl err), w1) \<Rightarrow>
          Some (Return ([], Some (FmtError ''error creating NewUpdateSession: %v'' [ArgErr err])), w1)
      | Some (Return (Inr session), w1) \<Rightarrow>
          Some (deferred (Close session)
            (\<lambda>w1.
     (case GetWUAUpdateCollection session query w1 of
        (Panic, w2) \<Rightarrow> (Panic, w2)
      | (Return (Inl err), w2) \<Rightarrow>
          (Return ([], Some (FmtError ''error calling GetWUAUpdateCollection with query %q: %v'' [ArgStr query, ArgErr err])), w2)
      | (Return (Inr updts), w2) \<Rightarrow>
          deferred (Release (collection_IDispatch updts)) (WUAUpdates_body p updts) w2))
            w1))\<close>

section \<open>Download and install\<close>

text \<open>\<open>func (s *IUpdateSession) DownloadWUAUpdateCollection(ctx, updates) error\<close>\<close>

definition DownloadWUAUpdateCollection ::
  "IUpdateSession \<Rightarrow> IUpdateCollection \<Rightarrow> world \<Rightarrow> go_error option outcome \<times> world" where
  \<open>DownloadWUAUpdateCollection s updates w =
     (case CallMethod (session_IDispatch s) ''CreateUpdateDownloader'' [] w of
        (Panic, w1) \<Rightarrow> (Panic, w1)
      | (Return (Inl err), w1) \<Rightarrow>
          (case GetScodeString (Some err) w1 of
             (Panic, w2) \<Rightarrow> (Panic, w2)
           | (Return scode, w2) \<Rightarrow>
               (Return (Some (FmtError (''error calling method CreateUpdateDownloader on IUpdateSession: %v'' @ scode) [ArgErr err])), w2))
      | (Return (Inr downloaderRaw), w1) \<Rightarrow>
          (let downloader = ToIDispatch downloaderRaw in
           deferred (Release downloader)
             (\<lambda>w1.
     (case PutProperty downloader ''Updates'' [disp_arg (collection_IDispatch updates)] w1 of
        (Panic, w2) \<Rightarrow> (Panic, w2)
      | (Return (Inl err), w2) \<Rightarrow>
          (case GetScodeString (Some err) w2 of
             (Panic, w3) \<Rightarrow> (Panic, w3)
           | (Return scode, w3) \<Rightarrow>
               (Return (Some (FmtError (''error calling PutProperty Updates on IUpdateDownloader: %v'' @ scode) [ArgErr err])), w3))
      | (Return (Inr _), w2) \<Rightarrow>
     (case CallMethod downloader ''Download'' [] w2 of
        (Panic, w3) \<Rightarrow> (Panic, w3)
      | (Return (Inl err), w3) \<Rightarrow>
          (case GetScodeString (Some err) w3 of
             (Panic, w4) \<Rightarrow> (Panic, w4)
           | (Return scode, w4) \<Rightarrow>
               (Return (Some (FmtError (''error calling method Download on IUpdateDownloader: %v'' @ scode) [ArgErr err])), w4))
      | (Return (Inr _), w3) \<Rightarrow> (Return None, w3))))
             w1))\<close>

text \<open>\<open>func (s *IUpdateSession) InstallWUAUpdateCollection(ctx, updates) error\<close>\<close>

definition InstallWUAUpdateCollection ::
  "IUpdateSession \<Rightarrow> IUpdateCollection \<Rightarrow> world \<Rightarrow> go_error option outcome \<times> world" where
  \<open>InstallWUAUpdateCollection s updates w =
     (case CallMethod (session_IDispatch s) ''CreateUpdateInstaller'' [] w of
        (Panic, w1) \<Rightarrow> (Panic, w1)
      | (Return (Inl err), w1) \<Rightarrow>
          (case GetScodeString (Some err) w1 of
             (Panic, w2) \<Rightarrow> (Panic, w2)
           | (Return scode, w2) \<Rightarrow>
               (Return (Some (FmtError (''error calling method CreateUpdateInstaller on IUpdateSession: %v'' @ scode) [ArgErr err])), w2))
      | (Return (Inr installerRaw), w1) \<Rightarrow>
          (let installer = ToIDispatch installerRaw in
           deferred (Release installer)
             (\<lambda>w1.
     (case PutProperty installer ''Updates'' [disp_arg (collection_IDispatch updates)] w1 of
        (Panic, w2) \<Rightarrow> (Panic, w2)
      | (Return (Inl err), w2) \<Rightarrow>
          (case GetScodeString (Some err) w2 of
             (Panic, w3) \<Rightarrow> (Panic, w3)
           | (Return scode, w3) \<Rightarrow>
               (Return (Some (FmtError (''error calling PutProperty Updates on IUpdateInstaller: %v'' @ scode) [ArgErr err])), w3))
      | (Return (Inr _), w2) \<Rightarrow>
     (case CallMethod installer ''Install'' [] w2 of
        (Panic, w3) \<Rightarrow> (Panic, w3)
      | (Return (Inl err), w3) \<Rightarrow>
          (case GetScodeString (Some err) w3 of
             (Panic, w4) \<Rightarrow> (Panic, w4)
           | (Return scode, w4) \<Rightarrow>
               (Return (Some (FmtError (''error calling method Install on IUpdateInstaller: %v'' @ scode) [ArgErr err])), w4))
      | (Return (Inr _), w3) \<Rightarrow> (Return None, w3))))
             w1))\<close>

text \<open>The blocks of \<open>InstallWUAUpdate\<close>: the acceptance of the license (the \<open>if\<close>
  on \<open>eula.Val\<close>), and the download phase followed by the install phase.\<close>

definition InstallWUAUpdate_accept ::
  "IUpdate \<Rightarrow> com_ptr variant \<Rightarrow> com_ptr variant \<Rightarrow> world \<Rightarrow> go_error option outcome \<times> world" where
  \<open>InstallWUAUpdate_accept updt title eula w =
     (if Val eula = 0 then
        (case CallMethod (update_IDispatch updt) ''AcceptEula'' []
                (emit (Debugf ''%s - Accepting EULA'' [value_arg title]) w) of
           (Panic, w1) \<Rightarrow> (Panic, w1)
         | (Return (Inl err), w1) \<Rightarrow>
             (Return (Some (FmtError ''updt.CallMethod("AcceptEula"): %v'' [ArgErr err])), w1)
         | (Return (Inr _), w1) \<Rightarrow> (Return None, w1))
      else
        (Return None, emit (Debugf ''%s - EulaAccepted: %v'' [value_arg title, value_arg eula]) w))\<close>

definition InstallWUAUpdate_phases ::
  "IUpdateSession \<Rightarrow> com_ptr variant \<Rightarrow> IUpdateCollection \<Rightarrow> world \<Rightarrow> go_error option outcome \<times> world" where
  \<open>InstallWUAUpdate_phases s title updts w =
     (case DownloadWUAUpdateCollection s updts (emit (Debugf ''Downloading update %s'' [value_arg title]) w) of
        (Panic, w1) \<Rightarrow> (Panic, w1)
      | (Return (Some err), w1) \<Rightarrow>
          (Return (Some (FmtError ''DownloadWUAUpdateCollection error: %v'' [ArgErr err])), w1)
      | (Return None, w1) \<Rightarrow>
     (case InstallWUAUpdateCollection s updts (emit (Debugf ''Installing update %s'' [value_arg title]) w1) of
        (Panic, w2) \<Rightarrow> (Panic, w2)
      | (Return (Some err), w2) \<Rightarrow>
          (Return (Some (FmtError ''InstallWUAUpdateCollection error: %v'' [ArgErr err])), w2)
      | (Return None, w2) \<Rightarrow> (Return None, w2)))\<close>

text \<open>\<open>func (s *IUpdateSession) InstallWUAUpdate(ctx, updt *IUpdate) error\<close>, after the
  collection has been created and its release deferred.\<close>

definition InstallWUAUpdate_body ::
  "IUpdateSession \<Rightarrow> IUpdate \<Rightarrow> com_ptr variant \<Rightarrow> IUpdateCollection \<Rightarrow> world \<Rightarrow>
   go_error option outcome \<times> world" where
  \<open>InstallWUAUpdate_body s updt title updts w =
     (case GetProperty (update_IDispatch updt) ''EulaAccepted'' [] w of
        (Panic, w1) \<Rightarrow> (Panic, w1)
      | (Return (Inl err), w1) \<Rightarrow>
          (Return (Some (FmtError ''updt.GetProperty("EulaAccepted"): %v'' [ArgErr err])), w1)
      | (Return (Inr eula), w1) \<Rightarrow>
     (case InstallWUAUpdate_accept updt title eula w1 of
        (Panic, w2) \<Rightarrow> (Panic, w2)
      | (Return (Some err), w2) \<Rightarrow> (Return (Some err), w2)
      | (Return None, w2) \<Rightarrow>
     (case Add updts updt w2 of
        (Panic, w3) \<Rightarrow> (Panic, w3)
      | (Return (Some err), w3) \<Rightarrow> (Return (Some err), w3)
      | (Return None, w3) \<Rightarrow> InstallWUAUpdate_phases s title updts w3)))\<close>

text \<open>\<open>func (s *IUpdateSession) InstallWUAUpdate(ctx context.Context, updt *IUpdate) error\<close>\<close>

definition InstallWUAUpdate ::
  "platform \<Rightarrow> IUpdateSession \<Rightarrow> IUpdate \<Rightarrow> world \<Rightarrow> go_error option outcome \<times> world" where
  \<open>InstallWUAUpdate p s updt w =
     (case GetProperty (update_IDispatch updt) ''Title'' [] w of
        (Panic, w1) \<Rightarrow> (Panic, w1)
      | (Return (Inl err), w1) \<Rightarrow>
          (Return (Some (FmtError ''updt.GetProperty("Title"): %v'' [ArgErr err])), w1)
      | (Return (Inr title), w1) \<Rightarrow>
     (case NewUpdateCollection p w1 of
        (Panic, w2) \<Rightarrow> (Panic, w2)
      | (Return (Inl err), w2) \<Rightarrow> (Return (Some err), w2)
      | (Return (Inr updts), w2) \<Rightarrow>
          deferred (Release (collection_IDispatch updts)) (InstallWUAUpdate_body s updt title updts) w2))\<close>

section \<open>Goroutines that open and close sessions\<close>

text \<open>
  A goroutine is idle, has called \<open>NewUpdateSession\<close> and stands at \<open>wuaSession.Lock()\<close>,
  or holds the session that the call returned. A step of goroutine \<open>t\<close> is its call, the
  return of \<open>NewUpdateSession\<close> (with a session or with an error), or its \<open>Close\<close> of
  the session it holds; \<open>NewUpdateSession\<close> has no step while \<open>Lock\<close> does not return.
  The platform may answer each call differently.
\<close>

datatype goroutine = Idle | Opening | Holding IUpdateSession

inductive step :: "nat \<Rightarrow> world \<times> (nat \<Rightarrow> goroutine) \<Rightarrow> world \<times> (nat \<Rightarrow> goroutine) \<Rightarrow> bool" where
  call: "gs t = Idle \<Longrightarrow> step t (w, gs) (w, gs(t := Opening))"
| opened: "gs t = Opening \<Longrightarrow> NewUpdateSession p w = Some (Return (Inr s), w') \<Longrightarrow>
     step t (w, gs) (w', gs(t := Holding s))"
| refused: "gs t = Opening \<Longrightarrow> NewUpdateSession p w = Some (Return (Inl err), w') \<Longrightarrow>
     step t (w, gs) (w', gs(t := Idle))"
| closed: "gs t = Holding s \<Longrightarrow> Close s w = (Return (), w') \<Longrightarrow>
     step t (w, gs) (w', gs(t := Idle))"

inductive reachable :: "world \<times> (nat \<Rightarrow> goroutine) \<Rightarrow> bool" where
  init: "\<not> mutex w \<Longrightarrow> reachable (w, \<lambda>t. Idle)"
| after: "reachable c \<Longrightarrow> step t c c' \<Longrightarrow> reachable c'"

definition open_sessions :: "(nat \<Rightarrow> goroutine) \<Rightarrow> nat set" where
  "open_sessions gs = {t. \<exists>s. gs t = Holding s}"

section \<open>Vocabulary of the properties\<close>

text \<open>A process that has not started: the mutex is free and nothing has happened.\<close>

definition idle_world :: world where
  "idle_world = \<lparr>mutex = False, next_handle = 0, trace = []\<rparr>"

text \<open>An error is platform-structured when it is an \<open>*ole.OleError\<close> whose sub-error is an
  \<open>ole.EXCEPINFO\<close>.\<close>

fun carries_scode :: "go_error option \<Rightarrow> bool" where
  "carries_scode (Some (OleError c d (Some (EXCEPINFO sc)))) = True"
| "carries_scode err = False"

text \<open>The object in a platform value, and the collection a search for \<open>query\<close> leads to:
  the session object, its searcher, the search result and its \<open>Updates\<close>.\<close>

definition object_of :: "com_object variant \<Rightarrow> com_object option" where
  "object_of v = (if VT v = VT_DISPATCH then pdispVal v else None)"

definition search_collection :: "platform \<Rightarrow> string \<Rightarrow> com_object option" where
  "search_collection p query =
     (case plat_coInitializeEx p of
        Some err \<Rightarrow> None
      | None \<Rightarrow>
     (case plat_CreateObject p ''Microsoft.Update.Session'' of
        Inl err \<Rightarrow> None
      | Inr unknown \<Rightarrow>
     (case queryInterface unknown of
        Inl err \<Rightarrow> None
      | Inr session \<Rightarrow>
     (case callMethod session ''CreateUpdateSearcher'' [] of
        Inl err \<Rightarrow> None
      | Inr searcherRaw \<Rightarrow>
     (case object_of searcherRaw of
        None \<Rightarrow> None
      | Some searcher \<Rightarrow>
     (case callMethod searcher ''Search'' [StrArg query] of
        Inl err \<Rightarrow> None
      | Inr resultRaw \<Rightarrow>
     (case object_of resultRaw of
        None \<Rightarrow> None
      | Some result \<Rightarrow>
     (case getProperty result ''Updates'' [] of
        Inl err \<Rightarrow> None
      | Inr updtsRaw \<Rightarrow> object_of updtsRaw))))))))"

text \<open>An automation call that failed, and how many of them a trace holds.\<close>

fun failed_call :: "event \<Rightarrow> bool" where
  "failed_call (PropertyGet h name args r) = (r = Failed)"
| "failed_call (PropertyPut h name args r) = (r = Failed)"
| "failed_call (MethodCall h name args r) = (r = Failed)"
| "failed_call ev = False"

definition failures :: "world \<Rightarrow> nat" where
  "failures w = length (filter failed_call (trace w))"

text \<open>The object that a property of an object holds, the count a collection reports
  (a 32-bit integer), and a count that was read but is not a 32-bit integer.\<close>

definition object_at :: "com_object \<Rightarrow> string \<Rightarrow> arg list \<Rightarrow> com_object option" where
  "object_at obj name args =
     (case getProperty obj name args of Inl err \<Rightarrow> None | Inr v \<Rightarrow> object_of v)"

definition count_of :: "com_object \<Rightarrow> 32 word option" where
  "count_of obj =
     (case getProperty obj ''Count'' [] of
        Inl err \<Rightarrow> None
      | Inr v \<Rightarrow> if VT v = VT_I4 then Some (ucast (Val v)) else None)"

definition malformed_count :: "com_object \<Rightarrow> bool" where
  "malformed_count obj =
     (case getProperty obj ''Count'' [] of Inl err \<Rightarrow> False | Inr v \<Rightarrow> VT v \<noteq> VT_I4)"



section \<open>A platform to run the program on\<close>

text \<open>
  Concrete automation objects, for running the definitions: an object is given by the
  tables of its properties and methods; what is not in a table is an unknown name.
\<close>

definition unknown_name :: go_error where
  "unknown_name = OleError 0x80020006 ''Unknown name.'' None"

definition no_interface :: go_error where
  "no_interface = OleError 0x80004002 ''No such interface supported'' None"

definition answers ::
  "(string \<times> arg list \<times> com_object variant) list \<Rightarrow> string \<Rightarrow> arg list \<Rightarrow> go_error + com_object variant" where
  "answers table name args =
     (case find (\<lambda>(n, a, v). n = name \<and> a = args) table of
        None \<Rightarrow> Inl unknown_name
      | Some (n, a, v) \<Rightarrow> Inr v)"

definition automation_object ::
  "(string \<times> arg list \<times> com_object variant) list \<Rightarrow>
   (string \<times> arg list \<times> com_object variant) list \<Rightarrow> com_object" where
  "automation_object props methods =
     ComObject (Inl no_interface) (answers props) (answers methods) (answers [])"

definition bstr :: "string \<Rightarrow> com_object variant" where
  "bstr s = VARIANT VT_BSTR 0 s None"

definition i4 :: "32 word \<Rightarrow> com_object variant" where
  "i4 n = VARIANT VT_I4 (ucast n) [] None"

definition dispatch :: "com_object \<Rightarrow> com_object variant" where
  "dispatch obj = VARIANT VT_DISPATCH 0 [] (Some obj)"

definition variant_bool :: "bool \<Rightarrow> com_object variant" where
  "variant_bool b = VARIANT VT_BOOL (if b then 0xFFFF else 0) [] None"

definition variant_date :: "64 word \<Rightarrow> com_object variant" where
  "variant_date d = VARIANT 7 d [] None"

definition variant_empty :: "com_object variant" where
  "variant_empty = VARIANT 0 0 [] None"

text \<open>A collection of values: \<open>Count\<close> and \<open>Item(i)\<close>.\<close>

definition collection_of :: "com_object variant list \<Rightarrow> com_object" where
  "collection_of vs =
     automation_object
       ((''Count'', [], i4 (of_nat (length vs))) #
        map (\<lambda>i. (''Item'', [IntArg (int i)], vs ! i)) [0..<length vs])
       []"

text \<open>The session side of a search that finds the collection \<open>coll\<close>, with \<open>decode\<close>
  for the dates.\<close>

definition search_platform :: "com_object \<Rightarrow> (64 word \<Rightarrow> go_error + int) \<Rightarrow> platform" where
  "search_platform coll decode =
     \<lparr>plat_coInitializeEx = None,
      plat_CreateObject =
        (\<lambda>programID.
           if programID = ''Microsoft.Update.Session'' then
             Inr (ComObject
                    (Inr (ComObject (Inl no_interface) (answers [])
                            (\<lambda>name args.
                               if name = ''CreateUpdateSearcher'' then
                                 Inr (dispatch (ComObject (Inl no_interface) (answers [])
                                        (\<lambda>name args.
                                           if name = ''Search'' then
                                             Inr (dispatch (automation_object [(''Updates'', [], dispatch coll)] []))
                                           else Inl unknown_name)
                                        (answers [])))
                               else Inl unknown_name)
                            (answers [])))
                    (answers []) (answers []) (answers []))
           else Inl unknown_name),
      plat_GetVariantDate = decode\<rparr>"

text \<open>An update with one knowledge-base article, one category and no further URLs.\<close>

definition sample_category :: com_object where
  "sample_category =
     automation_object
       [(''Name'', [], bstr ''Security Updates''),
        (''CategoryID'', [], bstr ''0fa1201d-4330-4fa8-8ae9-b877473b6441'')] []"

definition sample_identity :: com_object where
  "sample_identity =
     automation_object
       [(''RevisionNumber'', [], i4 200),
        (''UpdateID'', [], bstr ''c01629fc-64ea-45f3-b7cb-cabc7d566933'')] []"

definition sample_update :: com_object where
  "sample_update =
     automation_object
       [(''Title'', [], bstr ''Cumulative Update''),
        (''Description'', [], bstr ''Install this update to resolve issues in Windows.''),
        (''KBArticleIDs'', [], dispatch (collection_of [bstr ''5005565''])),
        (''Categories'', [], dispatch (collection_of [dispatch sample_category])),
        (''MoreInfoURLs'', [], dispatch (collection_of [])),
        (''SupportURL'', [], bstr ''https://support.microsoft.com''),
        (''LastDeploymentChangeTime'', [], variant_date 0x40E5A7C000000000),
        (''Identity'', [], dispatch sample_identity),
        (''EulaAccepted'', [], variant_bool False)]
       [(''AcceptEula'', [], variant_empty)]"

text \<open>The record that \<open>extractPkg\<close> makes of \<open>sample_update\<close> when its date decodes
  to \<open>t\<close>.\<close>

definition sample_package :: "int \<Rightarrow> WUAPackage" where
  "sample_package t =
     \<lparr>Title = ''Cumulative Update'',
      Description = ''Install this update to resolve issues in Windows.'',
      SupportURL = ''https://support.microsoft.com'',
      KBArticleIDs = [''5005565''],
      UpdateID = ''c01629fc-64ea-45f3-b7cb-cabc7d566933'',
      Categories = [''Security Updates''],
      CategoryIDs = [''0fa1201d-4330-4fa8-8ae9-b877473b6441''],
      MoreInfoURLs = [],
      RevisionNumber = 200,
      LastDeploymentChangeTime = t\<rparr>"

text \<open>An update of which only the title can be read.\<close>

definition broken_update :: com_object where
  "broken_update = automation_object [(''Title'', [], bstr ''Broken'')] []"

text \<open>
  The events that a call has added to the trace; a call of the method \<open>name\<close>; the
  download action that succeeded; the calls of the download phase; and a list of events in
  which every event that is an \<open>act\<close> comes after some event that is a \<open>pre\<close>
  (\<open>seen\<close>: one has been seen already).
\<close>

definition new_events :: "world \<Rightarrow> world \<Rightarrow> event list" where
  "new_events w w' = drop (length (trace w)) (trace w')"

fun is_call :: "string \<Rightarrow> event \<Rightarrow> bool" where
  "is_call name (MethodCall h m a r) = (m = name)"
| "is_call name ev = False"

definition download_ok :: "event \<Rightarrow> bool" where
  "download_ok ev = (is_call ''Download'' ev \<and> \<not> failed_call ev)"

definition download_phase :: "event \<Rightarrow> bool" where
  "download_phase ev = (is_call ''CreateUpdateDownloader'' ev \<or> is_call ''Download'' ev)"

fun guarded :: "(event \<Rightarrow> bool) \<Rightarrow> (event \<Rightarrow> bool) \<Rightarrow> bool \<Rightarrow> event list \<Rightarrow> bool" where
  "guarded pre act seen [] = True"
| "guarded pre act seen (ev # evs) = ((act ev \<longrightarrow> seen) \<and> guarded pre act (seen \<or> pre ev) evs)"

text \<open>What an automation call records of its result.\<close>

fun result_of :: "(go_error + com_ptr variant) outcome \<Rightarrow> call_result" where
  "result_of (Return (Inr v)) = Got (VT v) (Val v) (map_option hid (pdispVal v))"
| "result_of r = Failed"

text \<open>A platform on which an update collection can be created, a session whose
  downloader downloads or fails as \<open>ok\<close> says, a state in which that session is open, and
  an update whose license has been accepted.\<close>

definition accepting :: "string list \<Rightarrow> string \<Rightarrow> arg list \<Rightarrow> go_error + com_object variant" where
  "accepting names name args = (if name \<in> set names then Inr variant_empty else Inl unknown_name)"

definition install_platform :: platform where
  "install_platform =
     \<lparr>plat_coInitializeEx = None,
      plat_CreateObject =
        (\<lambda>programID.
           if programID = ''Microsoft.Update.UpdateColl'' then
             Inr (ComObject
                    (Inr (ComObject (Inl no_interface) (answers []) (accepting [''Add'']) (answers [])))
                    (answers []) (answers []) (answers []))
           else Inl unknown_name),
      plat_GetVariantDate = (\<lambda>d. Inr 0)\<rparr>"

definition install_session :: "bool \<Rightarrow> IUpdateSession" where
  "install_session ok =
     IUpdateSession (Some (ComPtr 0
       (ComObject (Inl no_interface) (answers [])
          (\<lambda>name args.
             if name = ''CreateUpdateDownloader'' then
               Inr (dispatch (ComObject (Inl no_interface) (answers [])
                      (accepting (if ok then [''Download''] else []))
                      (accepting [''Updates''])))
             else if name = ''CreateUpdateInstaller'' then
               Inr (dispatch (ComObject (Inl no_interface) (answers [])
                      (accepting [''Install''])
                      (accepting [''Updates''])))
             else Inl unknown_name)
          (answers []))))"

definition session_world :: world where
  "session_world = \<lparr>mutex = True, next_handle = 2, trace = []\<rparr>"

definition licensed_update :: com_object where
  "licensed_update =
     automation_object
       [(''Title'', [], bstr ''Definition Update''),
        (''EulaAccepted'', [], variant_bool True)] []"

text \<open>
  The reference that an event hands over to the program, the references that a trace
  releases (in order), and the references that a trace hands over and never releases.
\<close>

fun acquired :: "event \<Rightarrow> nat option" where
  "acquired (Created programID h) = h"
| "acquired (Queried u h) = h"
| "acquired (PropertyGet d n a (Got vt v h)) = h"
| "acquired (PropertyPut d n a (Got vt v h)) = h"
| "acquired (MethodCall d n a (Got vt v h)) = h"
| "acquired ev = None"

fun released :: "event \<Rightarrow> nat option" where
  "released (Released h) = Some h"
| "released ev = None"

definition releases :: "event list \<Rightarrow> nat list" where
  "releases evs = List.map_filter released evs"

definition leaked :: "event list \<Rightarrow> nat list" where
  "leaked evs = filter (\<lambda>h. h \<notin> set (releases evs)) (List.map_filter acquired evs)"

text \<open>How often the mutex has been unlocked.\<close>

definition unlocks :: "world \<Rightarrow> nat" where
  "unlocks w = length (filter (\<lambda>ev. ev = MutexUnlock) (trace w))"

text \<open>A platform on which a session can be opened, and platforms on which the
  initialisation, the creation of the session object, or the query for its dispatch
  interface fails.\<close>

definition refusing_platform :: "nat \<Rightarrow> platform" where
  "refusing_platform k =
     \<lparr>plat_coInitializeEx = (if k = 0 then Some (ErrorString ''CoInitializeEx failed'') else None),
      plat_CreateObject =
        (\<lambda>programID.
           if k = 1 then Inl unknown_name
           else Inr (ComObject
                  (if k = 2 then Inl no_interface
                   else Inr (automation_object [] []))
                  (answers []) (answers []) (answers []))),
      plat_GetVariantDate = (\<lambda>d. Inr 0)\<rparr>"

section \<open>Basic facts\<close>

lemma emit_simps [simp]:
  "mutex (emit ev w) = mutex w"
  "next_handle (emit ev w) = next_handle w"
  "trace (emit ev w) = trace w @ [ev]"
  by (simp_all add: emit_def)

section \<open>The diagnostic decoder panics on a nil pointer\<close>

text \<open>
  C8 says that \<open>GetScodeString\<close> never fails or panics, whatever the concrete type of
  the error. The code does panic: when the error is a non-nil interface value that holds
  a nil \<open>*ole.OleError\<close>, the first type assertion succeeds and \<open>oleError.SubError()\<close>
  dereferences the nil pointer; no check of the pointer stands between the two.
\<close>

theorem GetScodeString_panics_on_nil_pointer:
  "GetScodeString (Some NilOleError) w = (Panic, w)"
  by (simp add: GetScodeString_def)

text \<open>
  On every other error value, the nil error included, \<open>GetScodeString\<close> returns, and the
  mutex and the handles are as before. When the error is not a platform-structured error
  carrying a status code, the result is the empty string and nothing at all has happened;
  when it is, the result is the rendered status code and the only effect is one
  error-level log line.
\<close>

lemma GetScodeString_returns:
  assumes "err \<noteq> Some NilOleError"
  shows "(\<exists>str w'. GetScodeString err w = (Return str, w') \<and> mutex w' = mutex w
       \<and> next_handle w' = next_handle w) \<and>
   (\<not> carries_scode err \<longrightarrow> GetScodeString err w = (Return '''', w)) \<and>
   (\<forall>c d sc. err = Some (OleError c d (Some (EXCEPINFO sc))) \<longrightarrow>
      GetScodeString err w =
        (Return ('' SCODE: 0x'' @ hex_nat (unat sc)),
         emit (Errorf ''Error with SCODE was founded. SCODE : 0x%x'' [ArgInt (uint sc)]) w))"
proof (cases "carries_scode err")
  case True
  then obtain c d sc where "err = Some (OleError c d (Some (EXCEPINFO sc)))"
    by (auto elim: carries_scode.elims)
  then show ?thesis
    by (simp add: GetScodeString_def)
next
  case False
  with assms have "GetScodeString err w = (Return '''', w)"
    by (auto simp: GetScodeString_def split: option.splits go_error.splits)
  with False show ?thesis
    by auto
qed

lemma GetScodeString_runs:
  "GetScodeString None idle_world = (Return '''', idle_world) \<and>
   GetScodeString (Some (ErrorString ''access denied'')) idle_world = (Return '''', idle_world) \<and>
   GetScodeString (Some (OleError 0x80020009 ''Exception occurred.'' None)) idle_world
     = (Return '''', idle_world) \<and>
   GetScodeString (Some (OleError 0x80020009 ''Exception occurred.'' (Some (EXCEPINFO 0x80240016)))) idle_world
     = (Return '' SCODE: 0x80240016'',
        emit (Errorf ''Error with SCODE was founded. SCODE : 0x%x'' [ArgInt 0x80240016]) idle_world)"
  using GetScodeString_returns [of None idle_world]
    GetScodeString_returns [of "Some (ErrorString ''access denied'')" idle_world]
    GetScodeString_returns [of "Some (OleError 0x80020009 ''Exception occurred.'' None)" idle_world]
    GetScodeString_returns [of "Some (OleError 0x80020009 ''Exception occurred.'' (Some (EXCEPINFO 0x80240016)))" idle_world]
  by (simp add: hex_nat.simps hex_digit_def)

text \<open>
  The error itself is untouched: where a call site decorates a message, the error that
  failed is the argument of the message as it was, and the decoded status code is appended
  to the format string.
\<close>

lemma GetWUAUpdateCollection_keeps_error:
  assumes "callMethod (target d) ''CreateUpdateSearcher'' [] = Inl err" and "err \<noteq> NilOleError"
  shows "\<exists>scode w0 w'. GetScodeString (Some err) w0 = (Return scode, w') \<and>
           GetWUAUpdateCollection (IUpdateSession (Some d)) query w =
             (Return (Inl (FmtError (''error calling CreateUpdateSearcher: %v'' @ scode) [ArgErr err])), w')"
proof -
  let ?w0 = "emit (MethodCall (hid d) ''CreateUpdateSearcher'' [] Failed) w"
  from assms(2) GetScodeString_returns [of "Some err" ?w0] obtain scode w' where
    "GetScodeString (Some err) ?w0 = (Return scode, w')"
    by auto
  with assms(1) show ?thesis
    by (auto simp: GetWUAUpdateCollection_def CallMethod_def invoke_def)
qed

section \<open>The mutex is touched only by the session manager\<close>

lemmas go_splits = prod.splits outcome.splits sum.splits option.splits

lemma invoke_mutex: "invoke mk ans d n a w = (r, w') \<Longrightarrow> mutex w' = mutex w"
  by (auto simp: invoke_def split: option.splits sum.splits if_splits)

lemma GetProperty_mutex: "GetProperty d n a w = (r, w') \<Longrightarrow> mutex w' = mutex w"
  unfolding GetProperty_def by (rule invoke_mutex)

lemma CallMethod_mutex: "CallMethod d n a w = (r, w') \<Longrightarrow> mutex w' = mutex w"
  unfolding CallMethod_def by (rule invoke_mutex)

lemma PutProperty_mutex: "PutProperty d n a w = (r, w') \<Longrightarrow> mutex w' = mutex w"
  unfolding PutProperty_def by (rule invoke_mutex)

lemma Release_mutex: "Release d w = (r, w') \<Longrightarrow> mutex w' = mutex w"
  by (auto simp: Release_def split: option.splits)

lemma GetScodeString_mutex: "GetScodeString e w = (r, w') \<Longrightarrow> mutex w' = mutex w"
  by (auto simp: GetScodeString_def split: option.splits go_error.splits)

lemma GetCount_mutex: "GetCount d w = (r, w') \<Longrightarrow> mutex w' = mutex w"
  by (auto simp: GetCount_def split: go_splits dest: GetProperty_mutex)

lemma Item_mutex: "Item c i w = (r, w') \<Longrightarrow> mutex w' = mutex w"
  by (auto simp: Item_def split: go_splits dest: GetProperty_mutex)

lemma kbaIDs_loop_mutex: "kbaIDs_loop d c i ss w = (r, w') \<Longrightarrow> mutex w' = mutex w"
proof (induction d c i ss w rule: kbaIDs_loop.induct)
  case (1 d c i ss w)
  show ?case using "1.prems" "1.IH"
    by (subst (asm) kbaIDs_loop.simps) (auto split: if_splits go_splits dest: GetProperty_mutex)
qed

lemma kbaIDs_mutex: "kbaIDs u w = (r, w') \<Longrightarrow> mutex w' = mutex w"
  unfolding kbaIDs_def deferred_def
  by (auto simp: Let_def split: go_splits if_splits
      dest!: GetProperty_mutex GetCount_mutex kbaIDs_loop_mutex Release_mutex)

lemma moreInfoURLs_loop_mutex: "moreInfoURLs_loop d c i ss w = (r, w') \<Longrightarrow> mutex w' = mutex w"
proof (induction d c i ss w rule: moreInfoURLs_loop.induct)
  case (1 d c i ss w)
  show ?case using "1.prems" "1.IH"
    by (subst (asm) moreInfoURLs_loop.simps) (auto split: if_splits go_splits dest: GetProperty_mutex)
qed

lemma moreInfoURLs_mutex: "moreInfoURLs u w = (r, w') \<Longrightarrow> mutex w' = mutex w"
  unfolding moreInfoURLs_def deferred_def
  by (auto simp: Let_def split: go_splits if_splits
      dest!: GetProperty_mutex GetCount_mutex moreInfoURLs_loop_mutex Release_mutex)

lemma categories_loop_mutex: "categories_loop d c i cns cids w = (r, w') \<Longrightarrow> mutex w' = mutex w"
proof (induction "nat (c - i)" arbitrary: i cns cids w r w')
  case 0
  then show ?case
    by (subst (asm) categories_loop.simps) auto
next
  case (Suc n)
  have IH: "\<And>cns cids w r w'. categories_loop d c (i + 1) cns cids w = (r, w') \<Longrightarrow> mutex w' = mutex w"
    using Suc.hyps(2) by (intro Suc.hyps(1)) auto
  show ?case
    using Suc.prems
    by (subst (asm) categories_loop.simps)
       (auto simp: Let_def split: if_splits go_splits dest!: GetProperty_mutex Release_mutex IH)
qed

lemma categories_mutex: "categories u w = (r, w') \<Longrightarrow> mutex w' = mutex w"
  unfolding categories_def deferred_def
  by (auto simp: Let_def split: go_splits if_splits
      dest!: GetProperty_mutex GetCount_mutex categories_loop_mutex Release_mutex)

lemma extractPkg_body_mutex: "extractPkg_body p u w = (r, w') \<Longrightarrow> mutex w' = mutex w"
  unfolding extractPkg_body_def deferred_def
  by (auto simp: Let_def split: go_splits if_splits
      dest!: GetProperty_mutex kbaIDs_mutex categories_mutex moreInfoURLs_mutex Release_mutex)

lemma extractPkg_mutex: "extractPkg p c i w = (r, w') \<Longrightarrow> mutex w' = mutex w"
  unfolding extractPkg_def deferred_def
  by (auto simp: Let_def split: go_splits if_splits
      dest!: Item_mutex extractPkg_body_mutex Release_mutex)

lemma WUAUpdates_loop_mutex: "WUAUpdates_loop p c n i acc w = (r, w') \<Longrightarrow> mutex w' = mutex w"
proof (induction p c n i acc w rule: WUAUpdates_loop.induct)
  case (1 p c n i acc w)
  show ?case using "1.prems" "1.IH"
    by (subst (asm) WUAUpdates_loop.simps) (auto split: if_splits go_splits dest: extractPkg_mutex)
qed

lemma WUAUpdates_body_mutex: "WUAUpdates_body p c w = (r, w') \<Longrightarrow> mutex w' = mutex w"
  unfolding WUAUpdates_body_def Count_def
  by (auto simp: Let_def split: go_splits if_splits dest!: GetCount_mutex WUAUpdates_loop_mutex)

section \<open>A search that finds its collection\<close>

lemma invoke_Some:
  "invoke mk ans (Some d) n a w =
     (case ans (target d) n a of
        Inl err \<Rightarrow> (Return (Inl err), emit (mk (hid d) n a Failed) w)
      | Inr v \<Rightarrow>
          (case object_of v of
             None \<Rightarrow> (Return (Inr (VARIANT (VT v) (Val v) (bstrVal v) None)),
                       emit (mk (hid d) n a (Got (VT v) (Val v) None)) w)
           | Some obj \<Rightarrow>
               (Return (Inr (VARIANT (VT v) (Val v) (bstrVal v) (Some (ComPtr (next_handle w) obj)))),
                (emit (mk (hid d) n a (Got (VT v) (Val v) (Some (next_handle w)))) w)
                  \<lparr>next_handle := Suc (next_handle w)\<rparr>)))"
  by (simp add: invoke_def object_of_def split: sum.splits)

lemma invoke_None: "invoke mk ans None n a w = (Panic, w)"
  by (simp add: invoke_def)

lemmas call_defs = GetProperty_def CallMethod_def PutProperty_def invoke_Some invoke_None

lemma object_of_ToIDispatch:
  "object_of v = Some obj \<Longrightarrow> ToIDispatch (VARIANT (VT v) (Val v) (bstrVal v) (Some q)) = Some q"
  by (auto simp: object_of_def ToIDispatch_def split: if_splits)

lemma found_facts:
  assumes "search_collection p q = Some coll"
  obtains unknown session searcherRaw searcher resultRaw result updtsRaw where
       "plat_coInitializeEx p = None"
       "plat_CreateObject p ''Microsoft.Update.Session'' = Inr unknown"
       "queryInterface unknown = Inr session"
       "callMethod session ''CreateUpdateSearcher'' [] = Inr searcherRaw"
       "object_of searcherRaw = Some searcher"
       "callMethod searcher ''Search'' [StrArg q] = Inr resultRaw"
       "object_of resultRaw = Some result"
       "getProperty result ''Updates'' [] = Inr updtsRaw"
       "object_of updtsRaw = Some coll"
  using assms by (auto simp: search_collection_def split: option.splits sum.splits)

lemma NewUpdateSession_found:
  assumes "search_collection p q = Some coll" and "\<not> mutex w"
  shows "\<exists>session wA. NewUpdateSession p w = Some (Return (Inr (IUpdateSession (Some session))), wA)
           \<and> mutex wA \<and> search_collection p q = Some coll
           \<and> (\<exists>searcherRaw searcher resultRaw result updtsRaw.
                callMethod (target session) ''CreateUpdateSearcher'' [] = Inr searcherRaw \<and>
                object_of searcherRaw = Some searcher \<and>
                callMethod searcher ''Search'' [StrArg q] = Inr resultRaw \<and>
                object_of resultRaw = Some result \<and>
                getProperty result ''Updates'' [] = Inr updtsRaw \<and>
                object_of updtsRaw = Some coll)"
  using assms(1)
proof (rule found_facts)
  fix unknown session searcherRaw searcher resultRaw result updtsRaw
  assume f: "plat_coInitializeEx p = None"
       "plat_CreateObject p ''Microsoft.Update.Session'' = Inr unknown"
       "queryInterface unknown = Inr session"
       "callMethod session ''CreateUpdateSearcher'' [] = Inr searcherRaw"
       "object_of searcherRaw = Some searcher"
       "callMethod searcher ''Search'' [StrArg q] = Inr resultRaw"
       "object_of resultRaw = Some result"
       "getProperty result ''Updates'' [] = Inr updtsRaw"
       "object_of updtsRaw = Some coll"
  show ?thesis
    using f assms
    by (simp add: NewUpdateSession_def wuaSession_Lock_def coInitializeEx_def
          CreateObject_def QueryInterface_def)
qed

lemma GetWUAUpdateCollection_found:
  assumes "callMethod (target session) ''CreateUpdateSearcher'' [] = Inr searcherRaw"
       "object_of searcherRaw = Some searcher"
       "callMethod searcher ''Search'' [StrArg q] = Inr resultRaw"
       "object_of resultRaw = Some result"
       "getProperty result ''Updates'' [] = Inr updtsRaw"
       "object_of updtsRaw = Some coll"
  shows "\<exists>h wB. GetWUAUpdateCollection (IUpdateSession (Some session)) q w
            = (Return (Inr (IUpdateCollection (Some (ComPtr h coll)))), wB) \<and> mutex wB = mutex w"
  using assms
  by (simp add: GetWUAUpdateCollection_def call_defs deferred_def object_of_ToIDispatch
        Release_def Let_def)

lemma WUAUpdates_found:
  assumes "search_collection p q = Some coll" and "\<not> mutex w"
  shows "\<exists>h w1. mutex w1 \<and>
           (\<forall>r w2. WUAUpdates_body p (IUpdateCollection (Some (ComPtr h coll))) w1 = (r, w2) \<longrightarrow>
                    (\<exists>w3. WUAUpdates p q w = Some (r, w3) \<and> \<not> mutex w3))"
proof -
  from NewUpdateSession_found [OF assms] obtain session wA searcherRaw searcher resultRaw result updtsRaw
    where a: "NewUpdateSession p w = Some (Return (Inr (IUpdateSession (Some session))), wA)" "mutex wA"
      and f: "callMethod (target session) ''CreateUpdateSearcher'' [] = Inr searcherRaw"
       "object_of searcherRaw = Some searcher"
       "callMethod searcher ''Search'' [StrArg q] = Inr resultRaw"
       "object_of resultRaw = Some result"
       "getProperty result ''Updates'' [] = Inr updtsRaw"
       "object_of updtsRaw = Some coll"
    by blast
  from GetWUAUpdateCollection_found [OF f, of wA] a(2) obtain h wB
    where b: "GetWUAUpdateCollection (IUpdateSession (Some session)) q wA
            = (Return (Inr (IUpdateCollection (Some (ComPtr h coll)))), wB)" "mutex wB"
    by auto
  have "\<exists>w3. WUAUpdates p q w = Some (r, w3) \<and> \<not> mutex w3"
    if "WUAUpdates_body p (IUpdateCollection (Some (ComPtr h coll))) wB = (r, w2)" for r w2
  proof -
    from WUAUpdates_body_mutex [OF that] b(2) have "mutex w2" by simp
    then show ?thesis
      using a b that
      by (simp add: WUAUpdates_def deferred_def Release_def Close_def wuaSession_Unlock_def
            CoUninitialize_call_def)
  qed
  with b(2) show ?thesis by blast
qed

section \<open>Running the sample platform\<close>

lemmas vt_defs = VT_I4_def VT_BSTR_def VT_DISPATCH_def VT_BOOL_def

lemmas sample_defs = answers_def automation_object_def bstr_def i4_def dispatch_def variant_bool_def
  variant_date_def variant_empty_def collection_of_def search_platform_def sample_category_def
  sample_identity_def sample_update_def unknown_name_def no_interface_def object_of_def object_at_def
  count_of_def malformed_count_def

lemma search_platform_finds: "search_collection (search_platform coll decode) q = Some coll"
  by (simp add: search_collection_def sample_defs vt_defs)

section \<open>A count that reads as zero\<close>

lemma GetCount_reads_zero:
  assumes "GetCount (Some (ComPtr h obj)) w = (r, w')"
    and "getProperty obj ''Count'' [] = Inr v" and "fst (Value_int32 v) = 0"
  shows "r = Return (0, None)"
  using assms
  by (auto simp: GetCount_def call_defs Value_int32_def split: option.splits if_splits)

lemma object_at_facts:
  assumes "object_at u name args = Some obj"
  obtains v where "getProperty u name args = Inr v" "object_of v = Some obj"
  using assms by (auto simp: object_at_def split: sum.splits)

lemma kbaIDs_reads_zero:
  assumes "kbaIDs (IUpdate (Some (ComPtr h u))) w = (r, w')"
    and "getProperty obj ''Count'' [] = Inr v" and "fst (Value_int32 v) = 0"
    and "object_at u ''KBArticleIDs'' [] = Some obj"
  shows "r = Return ([], None)"
  using assms(4)
proof (rule object_at_facts)
  fix kv assume kv: "getProperty u ''KBArticleIDs'' [] = Inr kv" "object_of kv = Some obj"
  show ?thesis
    using kv assms(1)
    by (auto simp: kbaIDs_def call_defs object_of_ToIDispatch deferred_def Release_def Let_def
        split: go_splits dest!: GetCount_reads_zero [OF _ assms(2,3)])
qed

lemma moreInfoURLs_reads_zero:
  assumes "moreInfoURLs (IUpdate (Some (ComPtr h u))) w = (r, w')"
    and "getProperty obj ''Count'' [] = Inr v" and "fst (Value_int32 v) = 0"
    and "object_at u ''MoreInfoURLs'' [] = Some obj"
  shows "r = Return ([], None)"
  using assms(4)
proof (rule object_at_facts)
  fix kv assume kv: "getProperty u ''MoreInfoURLs'' [] = Inr kv" "object_of kv = Some obj"
  show ?thesis
    using kv assms(1)
    by (auto simp: moreInfoURLs_def call_defs object_of_ToIDispatch deferred_def Release_def Let_def
        split: go_splits dest!: GetCount_reads_zero [OF _ assms(2,3)])
qed

lemma categories_reads_zero:
  assumes "categories (IUpdate (Some (ComPtr h u))) w = (r, w')"
    and "getProperty obj ''Count'' [] = Inr v" and "fst (Value_int32 v) = 0"
    and "object_at u ''Categories'' [] = Some obj"
  shows "r = Return ([], [], None)"
  using assms(4)
proof (rule object_at_facts)
  fix kv assume kv: "getProperty u ''Categories'' [] = Inr kv" "object_of kv = Some obj"
  show ?thesis
    using kv assms(1)
    by (auto simp: categories_def call_defs object_of_ToIDispatch deferred_def Release_def Let_def
        split: go_splits dest!: GetCount_reads_zero [OF _ assms(2,3)])
qed

lemma WUAUpdates_body_reads_zero:
  assumes "WUAUpdates_body p (IUpdateCollection (Some (ComPtr h obj))) w = (r, w')"
    and "getProperty obj ''Count'' [] = Inr v" and "fst (Value_int32 v) = 0"
  shows "r = Return ([], None)"
  using assms(1)
  by (auto simp: WUAUpdates_body_def Count_def split: go_splits if_splits
      dest!: GetCount_reads_zero [OF _ assms(2,3)])

lemma WUAUpdates_reads_zero:
  assumes "search_collection p q = Some obj" and "\<not> mutex w"
    and "getProperty obj ''Count'' [] = Inr v" and "fst (Value_int32 v) = 0"
  shows "\<exists>w'. WUAUpdates p q w = Some (Return ([], None), w')"
proof -
  from WUAUpdates_found [OF assms(1,2)] obtain h w1 where
    *: "\<And>r w2. WUAUpdates_body p (IUpdateCollection (Some (ComPtr h obj))) w1 = (r, w2) \<Longrightarrow>
          \<exists>w3. WUAUpdates p q w = Some (r, w3)"
    by blast
  obtain r w2 where b: "WUAUpdates_body p (IUpdateCollection (Some (ComPtr h obj))) w1 = (r, w2)"
    by (cases "WUAUpdates_body p (IUpdateCollection (Some (ComPtr h obj))) w1")
  from WUAUpdates_body_reads_zero [OF b assms(3,4)] * [OF b] show ?thesis
    by simp
qed

lemma count_of_zero_facts:
  assumes "count_of obj = Some 0"
  obtains v where "getProperty obj ''Count'' [] = Inr v" "fst (Value_int32 v) = 0"
  using assms by (auto simp: count_of_def Value_int32_def split: sum.splits if_splits)

lemma malformed_count_facts:
  assumes "malformed_count obj"
  obtains v where "getProperty obj ''Count'' [] = Inr v" "fst (Value_int32 v) = 0" "VT v \<noteq> VT_I4"
  using assms by (auto simp: malformed_count_def Value_int32_def split: sum.splits if_splits)

text \<open>
  C7. When the collection that a search finds reports the count zero, \<open>WUAUpdates\<close>
  returns the empty (nil) list and the nil error. The same holds inside the extraction of
  one update: when the sub-collection of the KB article IDs, or of the more-info URLs,
  reports the count zero, \<open>kbaIDs\<close>, respectively \<open>moreInfoURLs\<close>, returns the empty list
  and the nil error.
\<close>

theorem zero_count_is_empty:
  assumes "count_of obj = Some 0"
  shows "(search_collection p q = Some obj \<and> \<not> mutex w \<longrightarrow>
            (\<exists>w'. WUAUpdates p q w = Some (Return ([], None), w'))) \<and>
         (object_at u ''KBArticleIDs'' [] = Some obj \<longrightarrow>
            (\<exists>w'. kbaIDs (IUpdate (Some (ComPtr h u))) w = (Return ([], None), w'))) \<and>
         (object_at u ''MoreInfoURLs'' [] = Some obj \<longrightarrow>
            (\<exists>w'. moreInfoURLs (IUpdate (Some (ComPtr h u))) w = (Return ([], None), w')))"
  using assms
proof (rule count_of_zero_facts)
  fix v assume v: "getProperty obj ''Count'' [] = Inr v" "fst (Value_int32 v) = 0"
  have "\<exists>w'. kbaIDs (IUpdate (Some (ComPtr h u))) w = (Return ([], None), w')"
    if "object_at u ''KBArticleIDs'' [] = Some obj"
    using kbaIDs_reads_zero [OF _ v that, of h w]
    by (cases "kbaIDs (IUpdate (Some (ComPtr h u))) w") simp
  moreover have "\<exists>w'. moreInfoURLs (IUpdate (Some (ComPtr h u))) w = (Return ([], None), w')"
    if "object_at u ''MoreInfoURLs'' [] = Some obj"
    using moreInfoURLs_reads_zero [OF _ v that, of h w]
    by (cases "moreInfoURLs (IUpdate (Some (ComPtr h u))) w") simp
  ultimately show ?thesis
    using WUAUpdates_reads_zero [OF _ _ v, of p q w] by blast
qed

theorem zero_count_is_empty_witness:
  "(\<exists>w'. WUAUpdates (search_platform (collection_of []) (\<lambda>d. Inr 0)) ''IsInstalled=0'' idle_world
           = Some (Return ([], None), w')) \<and>
   (\<exists>w'. kbaIDs (IUpdate (Some (ComPtr 7 (automation_object [(''KBArticleIDs'', [], dispatch (collection_of []))] []))))
            idle_world = (Return ([], None), w')) \<and>
   (\<exists>w'. moreInfoURLs (IUpdate (Some (ComPtr 7 sample_update))) idle_world = (Return ([], None), w'))"
proof -
  have c: "count_of (collection_of []) = Some 0"
    by (simp add: sample_defs vt_defs)
  have k: "object_at (automation_object [(''KBArticleIDs'', [], dispatch (collection_of []))] [])
             ''KBArticleIDs'' [] = Some (collection_of [])"
    by (simp add: sample_defs vt_defs)
  have m: "object_at sample_update ''MoreInfoURLs'' [] = Some (collection_of [])"
    by (simp add: sample_defs vt_defs)
  have i: "\<not> mutex idle_world"
    by (simp add: idle_world_def)
  show ?thesis
    using zero_count_is_empty [OF c, of "search_platform (collection_of []) (\<lambda>d. Inr 0)"
        "''IsInstalled=0''" idle_world _ 7]
      zero_count_is_empty [OF c, of _ _ idle_world
        "automation_object [(''KBArticleIDs'', [], dispatch (collection_of []))] []" 7]
      zero_count_is_empty [OF c, of _ _ idle_world sample_update 7]
      search_platform_finds k m i
    by blast
qed

text \<open>
  C10. When the \<open>Count\<close> property of a collection is read successfully but its value is
  not a 32-bit integer, \<open>GetCount\<close> returns the count 0 and the nil error. So a search
  whose collection reports such a count returns the empty list and the nil error, and
  \<open>kbaIDs\<close>, \<open>categories\<close> and \<open>moreInfoURLs\<close> return empty lists and the nil error for
  such a sub-collection.
\<close>

theorem malformed_count_is_empty:
  assumes "malformed_count obj"
  shows "(\<exists>w'. GetCount (Some (ComPtr h obj)) w = (Return (0, None), w')) \<and>
         (search_collection p q = Some obj \<and> \<not> mutex w \<longrightarrow>
            (\<exists>w'. WUAUpdates p q w = Some (Return ([], None), w'))) \<and>
         (object_at u ''KBArticleIDs'' [] = Some obj \<longrightarrow>
            (\<exists>w'. kbaIDs (IUpdate (Some (ComPtr h u))) w = (Return ([], None), w'))) \<and>
         (object_at u ''Categories'' [] = Some obj \<longrightarrow>
            (\<exists>w'. categories (IUpdate (Some (ComPtr h u))) w = (Return ([], [], None), w'))) \<and>
         (object_at u ''MoreInfoURLs'' [] = Some obj \<longrightarrow>
            (\<exists>w'. moreInfoURLs (IUpdate (Some (ComPtr h u))) w = (Return ([], None), w')))"
  using assms
proof (rule malformed_count_facts)
  fix v assume v: "getProperty obj ''Count'' [] = Inr v" "fst (Value_int32 v) = 0"
  have "\<exists>w'. GetCount (Some (ComPtr h obj)) w = (Return (0, None), w')"
    using GetCount_reads_zero [OF _ v, of h w]
    by (cases "GetCount (Some (ComPtr h obj)) w") simp
  moreover have "\<exists>w'. kbaIDs (IUpdate (Some (ComPtr h u))) w = (Return ([], None), w')"
    if "object_at u ''KBArticleIDs'' [] = Some obj"
    using kbaIDs_reads_zero [OF _ v that, of h w]
    by (cases "kbaIDs (IUpdate (Some (ComPtr h u))) w") simp
  moreover have "\<exists>w'. categories (IUpdate (Some (ComPtr h u))) w = (Return ([], [], None), w')"
    if "object_at u ''Categories'' [] = Some obj"
    using categories_reads_zero [OF _ v that, of h w]
    by (cases "categories (IUpdate (Some (ComPtr h u))) w") simp
  moreover have "\<exists>w'. moreInfoURLs (IUpdate (Some (ComPtr h u))) w = (Return ([], None), w')"
    if "object_at u ''MoreInfoURLs'' [] = Some obj"
    using moreInfoURLs_reads_zero [OF _ v that, of h w]
    by (cases "moreInfoURLs (IUpdate (Some (ComPtr h u))) w") simp
  ultimately show ?thesis
    using WUAUpdates_reads_zero [OF _ _ v, of p q w] by blast
qed

theorem malformed_count_is_empty_witness:
  "(\<exists>w'. GetCount (Some (ComPtr 7 (automation_object [(''Count'', [], bstr ''2'')] []))) idle_world
           = (Return (0, None), w')) \<and>
   (\<exists>w'. WUAUpdates (search_platform (automation_object [(''Count'', [], bstr ''2'')] []) (\<lambda>d. Inr 0))
            ''IsInstalled=0'' idle_world = Some (Return ([], None), w')) \<and>
   (\<exists>w'. kbaIDs (IUpdate (Some (ComPtr 7
            (automation_object [(''KBArticleIDs'', [], dispatch (automation_object [(''Count'', [], bstr ''2'')] []))] []))))
            idle_world = (Return ([], None), w')) \<and>
   (\<exists>w'. categories (IUpdate (Some (ComPtr 7
            (automation_object [(''Categories'', [], dispatch (automation_object [(''Count'', [], bstr ''2'')] []))] []))))
            idle_world = (Return ([], [], None), w')) \<and>
   (\<exists>w'. moreInfoURLs (IUpdate (Some (ComPtr 7
            (automation_object [(''MoreInfoURLs'', [], dispatch (automation_object [(''Count'', [], bstr ''2'')] []))] []))))
            idle_world = (Return ([], None), w'))"
proof -
  let ?bad = "automation_object [(''Count'', [], bstr ''2'')] []"
  have c: "malformed_count ?bad"
    by (simp add: sample_defs vt_defs)
  have k: "object_at (automation_object [(''KBArticleIDs'', [], dispatch ?bad)] []) ''KBArticleIDs'' [] = Some ?bad"
    by (simp add: sample_defs vt_defs)
  have g: "object_at (automation_object [(''Categories'', [], dispatch ?bad)] []) ''Categories'' [] = Some ?bad"
    by (simp add: sample_defs vt_defs)
  have m: "object_at (automation_object [(''MoreInfoURLs'', [], dispatch ?bad)] []) ''MoreInfoURLs'' [] = Some ?bad"
    by (simp add: sample_defs vt_defs)
  have i: "\<not> mutex idle_world"
    by (simp add: idle_world_def)
  show ?thesis
    using malformed_count_is_empty [OF c, of 7 idle_world "search_platform ?bad (\<lambda>d. Inr 0)" "''IsInstalled=0''"]
      malformed_count_is_empty [OF c, of 7 idle_world _ _ "automation_object [(''KBArticleIDs'', [], dispatch ?bad)] []"]
      malformed_count_is_empty [OF c, of 7 idle_world _ _ "automation_object [(''Categories'', [], dispatch ?bad)] []"]
      malformed_count_is_empty [OF c, of 7 idle_world _ _ "automation_object [(''MoreInfoURLs'', [], dispatch ?bad)] []"]
      search_platform_finds k g m i
    by blast
qed

section \<open>The session lock\<close>

lemma unlocks_emit [simp]:
  "unlocks (emit ev w) = unlocks w + (if ev = MutexUnlock then 1 else 0)"
  by (simp add: unlocks_def)

lemma unlocks_next_handle [simp]: "unlocks (w\<lparr>next_handle := n\<rparr>) = unlocks w"
  by (simp add: unlocks_def)

lemma unlocks_mutex [simp]: "unlocks (w\<lparr>mutex := b\<rparr>) = unlocks w"
  by (simp add: unlocks_def)

lemma Close_locked:
  assumes "mutex w"
  shows "\<exists>w'. Close s w = (Return (), w') \<and> \<not> mutex w' \<and> unlocks w' = unlocks w + 1"
  using assms
  by (cases "session_IDispatch s")
     (simp_all add: Close_def Release_def wuaSession_Unlock_def CoUninitialize_call_def)

lemma Close_returns:
  assumes "Close s w = (Return (), w')"
  shows "mutex w \<and> \<not> mutex w'"
  using assms
  by (cases "session_IDispatch s")
     (auto simp: Close_def Release_def wuaSession_Unlock_def CoUninitialize_call_def split: if_splits)

lemma NewUpdateSession_blocks: "mutex w \<Longrightarrow> NewUpdateSession p w = None"
  by (simp add: NewUpdateSession_def wuaSession_Lock_def)

lemma NewUpdateSession_cases:
  assumes "\<not> mutex w"
  shows "\<exists>r w'. NewUpdateSession p w = Some (Return r, w') \<and>
           (case r of
              Inl err \<Rightarrow> \<not> mutex w' \<and> unlocks w' = unlocks w + 1
            | Inr s \<Rightarrow> mutex w' \<and> unlocks w' = unlocks w) \<and>
           (isl r \<longleftrightarrow>
              (plat_coInitializeEx p \<noteq> None \<or>
               (case plat_CreateObject p ''Microsoft.Update.Session'' of
                  Inl err \<Rightarrow> True
                | Inr unknown \<Rightarrow> isl (queryInterface unknown))))"
  using assms
  by (auto simp: NewUpdateSession_def wuaSession_Lock_def coInitializeEx_def
        CreateObject_def QueryInterface_def Close_def Release_def wuaSession_Unlock_def
        CoUninitialize_call_def
      split: option.splits sum.splits)

text \<open>
  C6. From a state in which the mutex is free, \<open>NewUpdateSession\<close> returns. When it
  returns an error (exactly when the initialisation of the subsystem, the creation of the
  session object or the query for its dispatch interface fails), the mutex is free again
  and has been unlocked exactly once before the return. When it returns a session, the
  mutex is held and has not been unlocked; \<open>Close\<close> of that session then returns, leaves
  the mutex free and has unlocked it exactly once.
\<close>

theorem NewUpdateSession_releases_lock:
  assumes "\<not> mutex w"
  shows "\<exists>r w'. NewUpdateSession p w = Some (Return r, w') \<and>
           (isl r \<longleftrightarrow>
              (plat_coInitializeEx p \<noteq> None \<or>
               (case plat_CreateObject p ''Microsoft.Update.Session'' of
                  Inl err \<Rightarrow> True
                | Inr unknown \<Rightarrow> isl (queryInterface unknown)))) \<and>
           (case r of
              Inl err \<Rightarrow> \<not> mutex w' \<and> unlocks w' = unlocks w + 1
            | Inr s \<Rightarrow>
                mutex w' \<and> unlocks w' = unlocks w \<and>
                (\<exists>w''. Close s w' = (Return (), w'') \<and> \<not> mutex w'' \<and> unlocks w'' = unlocks w' + 1))"
proof -
  from NewUpdateSession_cases [OF assms, of p] obtain r w' where
    *: "NewUpdateSession p w = Some (Return r, w')"
       "case r of Inl err \<Rightarrow> \<not> mutex w' \<and> unlocks w' = unlocks w + 1
                | Inr s \<Rightarrow> mutex w' \<and> unlocks w' = unlocks w"
       "isl r \<longleftrightarrow>
              (plat_coInitializeEx p \<noteq> None \<or>
               (case plat_CreateObject p ''Microsoft.Update.Session'' of
                  Inl err \<Rightarrow> True
                | Inr unknown \<Rightarrow> isl (queryInterface unknown)))"
    by blast
  show ?thesis
  proof (cases r)
    case (Inl err)
    with * show ?thesis by auto
  next
    case (Inr s)
    with *(2) have "mutex w'" by simp
    from Close_locked [OF this, of s] Inr * show ?thesis by auto
  qed
qed

theorem NewUpdateSession_releases_lock_witness:
  "(\<exists>err w'. NewUpdateSession (refusing_platform 0) idle_world = Some (Return (Inl err), w')
       \<and> \<not> mutex w' \<and> unlocks w' = 1) \<and>
   (\<exists>err w'. NewUpdateSession (refusing_platform 1) idle_world = Some (Return (Inl err), w')
       \<and> \<not> mutex w' \<and> unlocks w' = 1) \<and>
   (\<exists>err w'. NewUpdateSession (refusing_platform 2) idle_world = Some (Return (Inl err), w')
       \<and> \<not> mutex w' \<and> unlocks w' = 1) \<and>
   (\<exists>s w' w''. NewUpdateSession (refusing_platform 3) idle_world = Some (Return (Inr s), w')
       \<and> mutex w' \<and> unlocks w' = 0
       \<and> Close s w' = (Return (), w'') \<and> \<not> mutex w'' \<and> unlocks w'' = 1)"
proof -
  have i: "\<not> mutex idle_world" "unlocks idle_world = 0"
    by (simp_all add: idle_world_def unlocks_def)
  have refused: "\<exists>err w'. NewUpdateSession (refusing_platform k) idle_world = Some (Return (Inl err), w')
       \<and> \<not> mutex w' \<and> unlocks w' = 1" if "k < 3" for k
  proof -
    from NewUpdateSession_releases_lock [OF i(1), of "refusing_platform k"] obtain r w' where
      a: "NewUpdateSession (refusing_platform k) idle_world = Some (Return r, w')"
         "isl r \<longleftrightarrow>
              (plat_coInitializeEx (refusing_platform k) \<noteq> None \<or>
               (case plat_CreateObject (refusing_platform k) ''Microsoft.Update.Session'' of
                  Inl err \<Rightarrow> True
                | Inr unknown \<Rightarrow> isl (queryInterface unknown)))"
         "case r of
              Inl err \<Rightarrow> \<not> mutex w' \<and> unlocks w' = unlocks idle_world + 1
            | Inr s \<Rightarrow>
                mutex w' \<and> unlocks w' = unlocks idle_world \<and>
                (\<exists>w''. Close s w' = (Return (), w'') \<and> \<not> mutex w'' \<and> unlocks w'' = unlocks w' + 1)"
      by blast
    from a(2) that have "isl r"
      by (simp add: refusing_platform_def)
    then obtain err where "r = Inl err"
      by (cases r) auto
    with a i(2) show ?thesis
      by auto
  qed
  have opened: "\<exists>s w' w''. NewUpdateSession (refusing_platform 3) idle_world = Some (Return (Inr s), w')
       \<and> mutex w' \<and> unlocks w' = 0
       \<and> Close s w' = (Return (), w'') \<and> \<not> mutex w'' \<and> unlocks w'' = 1"
  proof -
    from NewUpdateSession_releases_lock [OF i(1), of "refusing_platform 3"] obtain r w' where
      a: "NewUpdateSession (refusing_platform 3) idle_world = Some (Return r, w')"
         "isl r \<longleftrightarrow>
              (plat_coInitializeEx (refusing_platform 3) \<noteq> None \<or>
               (case plat_CreateObject (refusing_platform 3) ''Microsoft.Update.Session'' of
                  Inl err \<Rightarrow> True
                | Inr unknown \<Rightarrow> isl (queryInterface unknown)))"
         "case r of
              Inl err \<Rightarrow> \<not> mutex w' \<and> unlocks w' = unlocks idle_world + 1
            | Inr s \<Rightarrow>
                mutex w' \<and> unlocks w' = unlocks idle_world \<and>
                (\<exists>w''. Close s w' = (Return (), w'') \<and> \<not> mutex w'' \<and> unlocks w'' = unlocks w' + 1)"
      by blast
    from a(2) have "\<not> isl r"
      by (simp add: refusing_platform_def)
    then obtain s where "r = Inr s"
      by (cases r) auto
    with a i(2) show ?thesis
      by auto
  qed
  from refused [of 0] refused [of 1] refused [of 2] opened show ?thesis
    by simp
qed

section \<open>At most one session is open\<close>

lemma open_sessions_upd_Holding: "open_sessions (gs(t := Holding s)) = insert t (open_sessions gs)"
  by (auto simp: open_sessions_def)

lemma open_sessions_upd_other:
  "(\<And>s. g \<noteq> Holding s) \<Longrightarrow> open_sessions (gs(t := g)) = open_sessions gs - {t}"
  by (auto simp: open_sessions_def)

lemma NewUpdateSession_Some:
  assumes "NewUpdateSession p w = Some (Return r, w')"
  shows "\<not> mutex w \<and> (case r of Inl err \<Rightarrow> \<not> mutex w' | Inr s \<Rightarrow> mutex w')"
proof -
  from assms have m: "\<not> mutex w"
    by (auto simp: NewUpdateSession_def wuaSession_Lock_def split: if_splits)
  from NewUpdateSession_cases [OF m, of p] assms m show ?thesis
    by (auto split: sum.splits)
qed

text \<open>The invariant: the mutex is held exactly while one goroutine holds a session.\<close>

lemma step_invariant:
  assumes "step t (w, gs) (w', gs')"
    and "if mutex w then \<exists>t. open_sessions gs = {t} else open_sessions gs = {}"
  shows "if mutex w' then \<exists>t. open_sessions gs' = {t} else open_sessions gs' = {}"
  using assms
proof (cases rule: step.cases)
  case call
  then have "t \<notin> open_sessions gs"
    by (auto simp: open_sessions_def)
  with assms(2) call show ?thesis
    by (simp add: open_sessions_upd_other)
next
  case (opened p s)
  from NewUpdateSession_Some [OF opened(3)] have "\<not> mutex w" "mutex w'"
    by simp_all
  with assms(2) opened show ?thesis
    by (simp add: open_sessions_upd_Holding)
next
  case (refused p err)
  from NewUpdateSession_Some [OF refused(3)] have "\<not> mutex w" "\<not> mutex w'"
    by simp_all
  with assms(2) refused show ?thesis
    by (simp add: open_sessions_upd_other)
next
  case (closed s)
  from Close_returns [OF closed(3)] have m: "mutex w" "\<not> mutex w'"
    by simp_all
  from closed(2) have "t \<in> open_sessions gs"
    by (auto simp: open_sessions_def)
  with assms(2) m have "open_sessions gs = {t}"
    by auto
  with closed m show ?thesis
    by (simp add: open_sessions_upd_other)
qed

lemma reachable_invariant:
  assumes "reachable c"
  shows "if mutex (fst c) then \<exists>t. open_sessions (snd c) = {t} else open_sessions (snd c) = {}"
  using assms
proof (induction rule: reachable.induct)
  case (init w)
  then show ?case
    by (simp add: open_sessions_def)
next
  case (after c t c')
  then show ?case
    using step_invariant [of t "fst c" "snd c" "fst c'" "snd c'"]
    by simp
qed

text \<open>
  C5. In every reachable state of the goroutines that open and close sessions, at most
  one session is open (opened by \<open>NewUpdateSession\<close> and not yet closed). While goroutine
  \<open>t1\<close> holds a session and goroutine \<open>t2\<close> stands in \<open>NewUpdateSession\<close>, \<open>t2\<close> has no step:
  its call does not return. The \<open>Close\<close> of \<open>t1\<close> returns; after it the call of \<open>t2\<close>
  returns, whatever the platform answers, and it returns a session that \<open>t2\<close> then holds
  whenever the initialisation, the creation of the session object and the query for its
  interface succeed.
\<close>

theorem one_session_at_a_time:
  assumes "reachable (w, gs)"
  shows "finite (open_sessions gs) \<and> card (open_sessions gs) \<le> 1 \<and>
         (\<forall>t1 t2 s1. gs t1 = Holding s1 \<and> gs t2 = Opening \<longrightarrow>
            (\<forall>c'. \<not> step t2 (w, gs) c') \<and>
            (\<exists>w'. Close s1 w = (Return (), w') \<and> step t1 (w, gs) (w', gs(t1 := Idle)) \<and>
               (\<forall>p. \<exists>r w''. NewUpdateSession p w' = Some (Return r, w'') \<and>
                  (isl r \<longleftrightarrow>
                     (plat_coInitializeEx p \<noteq> None \<or>
                      (case plat_CreateObject p ''Microsoft.Update.Session'' of
                         Inl err \<Rightarrow> True
                       | Inr unknown \<Rightarrow> isl (queryInterface unknown)))) \<and>
                  (case r of
                     Inl err \<Rightarrow> step t2 (w', gs(t1 := Idle)) (w'', gs(t1 := Idle, t2 := Idle))
                   | Inr s2 \<Rightarrow> step t2 (w', gs(t1 := Idle)) (w'', gs(t1 := Idle, t2 := Holding s2))))))"
proof -
  from reachable_invariant [OF assms]
  have inv: "if mutex w then \<exists>t. open_sessions gs = {t} else open_sessions gs = {}"
    by (auto split: if_splits)
  then have card: "finite (open_sessions gs) \<and> card (open_sessions gs) \<le> 1"
    by (auto split: if_splits)
  have waits: "(\<forall>c'. \<not> step t2 (w, gs) c') \<and>
            (\<exists>w'. Close s1 w = (Return (), w') \<and> step t1 (w, gs) (w', gs(t1 := Idle)) \<and>
               (\<forall>p. \<exists>r w''. NewUpdateSession p w' = Some (Return r, w'') \<and>
                  (isl r \<longleftrightarrow>
                     (plat_coInitializeEx p \<noteq> None \<or>
                      (case plat_CreateObject p ''Microsoft.Update.Session'' of
                         Inl err \<Rightarrow> True
                       | Inr unknown \<Rightarrow> isl (queryInterface unknown)))) \<and>
                  (case r of
                     Inl err \<Rightarrow> step t2 (w', gs(t1 := Idle)) (w'', gs(t1 := Idle, t2 := Idle))
                   | Inr s2 \<Rightarrow> step t2 (w', gs(t1 := Idle)) (w'', gs(t1 := Idle, t2 := Holding s2)))))"
    if h: "gs t1 = Holding s1" and o: "gs t2 = Opening" for t1 t2 s1
  proof -
    from h have "t1 \<in> open_sessions gs"
      by (auto simp: open_sessions_def)
    with inv have m: "mutex w"
      by (auto split: if_splits)
    have blocked: "\<not> step t2 (w, gs) c'" for c'
    proof
      assume "step t2 (w, gs) c'"
      then show False
        using o NewUpdateSession_blocks [OF m]
        by (cases rule: step.cases) auto
    qed
    from Close_locked [OF m, of s1] obtain w' where
      c: "Close s1 w = (Return (), w')" "\<not> mutex w'"
      by blast
    from step.closed [of gs t1 s1 w w', OF h c(1)] have s1: "step t1 (w, gs) (w', gs(t1 := Idle))" .
    from h o have ne: "t1 \<noteq> t2"
      by auto
    have after: "\<exists>r w''. NewUpdateSession p w' = Some (Return r, w'') \<and>
                  (isl r \<longleftrightarrow>
                     (plat_coInitializeEx p \<noteq> None \<or>
                      (case plat_CreateObject p ''Microsoft.Update.Session'' of
                         Inl err \<Rightarrow> True
                       | Inr unknown \<Rightarrow> isl (queryInterface unknown)))) \<and>
                  (case r of
                     Inl err \<Rightarrow> step t2 (w', gs(t1 := Idle)) (w'', gs(t1 := Idle, t2 := Idle))
                   | Inr s2 \<Rightarrow> step t2 (w', gs(t1 := Idle)) (w'', gs(t1 := Idle, t2 := Holding s2)))" for p
    proof -
      from NewUpdateSession_cases [OF c(2), of p] obtain r w'' where
        n: "NewUpdateSession p w' = Some (Return r, w'')"
           "isl r \<longleftrightarrow>
              (plat_coInitializeEx p \<noteq> None \<or>
               (case plat_CreateObject p ''Microsoft.Update.Session'' of
                  Inl err \<Rightarrow> True
                | Inr unknown \<Rightarrow> isl (queryInterface unknown)))"
        by blast
      have g: "(gs(t1 := Idle)) t2 = Opening"
        using o ne by simp
      show ?thesis
      proof (cases r)
        case (Inl err)
        with n(1) have "NewUpdateSession p w' = Some (Return (Inl err), w'')"
          by simp
        from step.refused [of "gs(t1 := Idle)" t2 p w' err w'', OF g this] Inl n show ?thesis
          by auto
      next
        case (Inr s2)
        with n(1) have "NewUpdateSession p w' = Some (Return (Inr s2), w'')"
          by simp
        from step.opened [of "gs(t1 := Idle)" t2 p w' s2 w'', OF g this] Inr n show ?thesis
          by auto
      qed
    qed
    from blocked c(1) s1 after show ?thesis
      by blast
  qed
  from card waits show ?thesis
    by blast
qed

theorem one_session_at_a_time_witness:
  "\<exists>w gs s. reachable (w, gs) \<and> gs 0 = Holding s \<and> gs 1 = Opening \<and>
     finite (open_sessions gs) \<and> card (open_sessions gs) \<le> 1 \<and>
     (\<forall>c'. \<not> step 1 (w, gs) c') \<and>
     (\<exists>w'. Close s w = (Return (), w') \<and> step 0 (w, gs) (w', gs(0 := Idle)) \<and>
        (\<exists>s2 w''. NewUpdateSession (refusing_platform 3) w' = Some (Return (Inr s2), w'') \<and>
           step 1 (w', gs(0 := Idle)) (w'', gs(0 := Idle, 1 := Holding s2))))"
proof -
  let ?p = "refusing_platform 3"
  have ok: "\<not> (plat_coInitializeEx ?p \<noteq> None \<or>
               (case plat_CreateObject ?p ''Microsoft.Update.Session'' of
                  Inl err \<Rightarrow> True
                | Inr unknown \<Rightarrow> isl (queryInterface unknown)))"
    by (simp add: refusing_platform_def)
  have i: "\<not> mutex idle_world"
    by (simp add: idle_world_def)
  from NewUpdateSession_cases [OF i, of ?p] ok obtain s w where
    n: "NewUpdateSession ?p idle_world = Some (Return (Inr s), w)"
    by (metis sum.collapse(2))
  define gs0 :: "nat \<Rightarrow> goroutine" where "gs0 = (\<lambda>t. Idle)"
  define gs where "gs = gs0(0 := Holding s, 1 := Opening)"
  have r0: "reachable (idle_world, gs0)"
    unfolding gs0_def using i by (rule reachable.init)
  have "step 0 (idle_world, gs0) (idle_world, gs0(0 := Opening))"
    by (rule step.call) (simp add: gs0_def)
  from reachable.after [OF r0 this] have r1: "reachable (idle_world, gs0(0 := Opening))" .
  have "step 0 (idle_world, gs0(0 := Opening)) (w, (gs0(0 := Opening))(0 := Holding s))"
    using n by (intro step.opened [where p = ?p]) simp_all
  from reachable.after [OF r1 this] have r2: "reachable (w, gs0(0 := Holding s))"
    by simp
  have "step 1 (w, gs0(0 := Holding s)) (w, (gs0(0 := Holding s))(1 := Opening))"
    by (rule step.call) (simp add: gs0_def)
  from reachable.after [OF r2 this] have r3: "reachable (w, gs)"
    by (simp add: gs_def)
  have g: "gs 0 = Holding s" "gs 1 = Opening"
    by (simp_all add: gs_def)
  from one_session_at_a_time [OF r3] g obtain w' where
    c: "finite (open_sessions gs)" "card (open_sessions gs) \<le> 1" "\<forall>c'. \<not> step 1 (w, gs) c'"
       "Close s w = (Return (), w')" "step 0 (w, gs) (w', gs(0 := Idle))"
    and a: "\<forall>p. \<exists>r w''. NewUpdateSession p w' = Some (Return r, w'') \<and>
                  (isl r \<longleftrightarrow>
                     (plat_coInitializeEx p \<noteq> None \<or>
                      (case plat_CreateObject p ''Microsoft.Update.Session'' of
                         Inl err \<Rightarrow> True
                       | Inr unknown \<Rightarrow> isl (queryInterface unknown)))) \<and>
                  (case r of
                     Inl err \<Rightarrow> step 1 (w', gs(0 := Idle)) (w'', gs(0 := Idle, 1 := Idle))
                   | Inr s2 \<Rightarrow> step 1 (w', gs(0 := Idle)) (w'', gs(0 := Idle, 1 := Holding s2)))"
    by blast
  from a [rule_format, of ?p] ok obtain r w'' where
    b: "NewUpdateSession ?p w' = Some (Return r, w'')" "\<not> isl r"
       "case r of
          Inl err \<Rightarrow> step 1 (w', gs(0 := Idle)) (w'', gs(0 := Idle, 1 := Idle))
        | Inr s2 \<Rightarrow> step 1 (w', gs(0 := Idle)) (w'', gs(0 := Idle, 1 := Holding s2))"
    by blast
  from b(2) obtain s2 where "r = Inr s2"
    by (cases r) auto
  with b have "NewUpdateSession ?p w' = Some (Return (Inr s2), w'')"
    "step 1 (w', gs(0 := Idle)) (w'', gs(0 := Idle, 1 := Holding s2))"
    by simp_all
  with r3 g c show ?thesis
    by blast
qed

section \<open>What a successful read says about the platform\<close>


lemma GetProperty_not_nil:
  assumes "GetProperty d n a w = (Return r, w')"
  shows "d \<noteq> None"
  using assms by (cases d) (auto simp: call_defs)


section \<open>The category lists are paired\<close>






section \<open>Failed calls are not swallowed\<close>

lemma failures_emit [simp]:
  "failures (emit ev w) = failures w + (if failed_call ev then 1 else 0)"
  by (simp add: failures_def)

lemma failures_next_handle [simp]: "failures (w\<lparr>next_handle := n\<rparr>) = failures w"
  by (simp add: failures_def)

lemma GetProperty_failures:
  assumes "GetProperty d n a w = (r, w')"
  shows "failures w' = failures w + (if \<exists>e. r = Return (Inl e) then 1 else 0) \<and>
         (r = Panic \<longleftrightarrow> d = None)"
  using assms
  by (cases d) (auto simp: call_defs split: sum.splits option.splits)

lemma Release_failures:
  "Release d w = (r, w') \<Longrightarrow> failures w' = failures w \<and> (r = Panic \<longleftrightarrow> d = None)"
  by (cases d) (auto simp: Release_def)

lemma GetCount_failures:
  assumes "GetCount d w = (r, w')"
  shows "failures w' = failures w + (if \<exists>c e. r = Return (c, Some e) then 1 else 0) \<and>
         (r = Panic \<longleftrightarrow> d = None)"
  using assms
  by (auto simp: GetCount_def split: go_splits dest!: GetProperty_failures)

lemma Item_failures:
  assumes "Item c i w = (r, w')"
  shows "failures w' = failures w + (if \<exists>e. r = Return (Inl e) then 1 else 0)"
  using assms
  by (auto simp: Item_def split: go_splits dest!: GetProperty_failures)

lemma kbaIDs_loop_failures:
  assumes "kbaIDs_loop d c i ss w = (r, w')"
  shows "failures w' = failures w + (if \<exists>xs e. r = Return (xs, Some e) then 1 else 0) \<and>
         (r = Panic \<longrightarrow> d = None)"
  using assms
proof (induction "nat (c - i)" arbitrary: i ss w)
  case 0
  then show ?case
    by (subst (asm) kbaIDs_loop.simps) auto
next
  case (Suc m)
  have IH: "\<And>ss w. kbaIDs_loop d c (i + 1) ss w = (r, w') \<Longrightarrow>
      failures w' = failures w + (if \<exists>xs e. r = Return (xs, Some e) then 1 else 0) \<and>
         (r = Panic \<longrightarrow> d = None)"
    using Suc.hyps(2) by (intro Suc.hyps(1)) auto
  show ?case
    using Suc.prems
    by (subst (asm) kbaIDs_loop.simps)
       (auto split: if_splits go_splits dest!: GetProperty_failures IH)
qed

lemma moreInfoURLs_loop_failures:
  assumes "moreInfoURLs_loop d c i ss w = (r, w')"
  shows "failures w' = failures w + (if \<exists>xs e. r = Return (xs, Some e) then 1 else 0) \<and>
         (r = Panic \<longrightarrow> d = None)"
  using assms
proof (induction "nat (c - i)" arbitrary: i ss w)
  case 0
  then show ?case
    by (subst (asm) moreInfoURLs_loop.simps) auto
next
  case (Suc m)
  have IH: "\<And>ss w. moreInfoURLs_loop d c (i + 1) ss w = (r, w') \<Longrightarrow>
      failures w' = failures w + (if \<exists>xs e. r = Return (xs, Some e) then 1 else 0) \<and>
         (r = Panic \<longrightarrow> d = None)"
    using Suc.hyps(2) by (intro Suc.hyps(1)) auto
  show ?case
    using Suc.prems
    by (subst (asm) moreInfoURLs_loop.simps)
       (auto split: if_splits go_splits dest!: GetProperty_failures IH)
qed

lemma categories_loop_failures:
  assumes "categories_loop d c i cns cids w = (r, w')"
  shows "failures w' = failures w + (if \<exists>xs ys e. r = Return (xs, ys, Some e) then 1 else 0)"
  using assms
proof (induction "nat (c - i)" arbitrary: i cns cids w r w')
  case 0
  then show ?case
    by (subst (asm) categories_loop.simps) auto
next
  case (Suc m)
  have IH: "\<And>cns cids w r w'. categories_loop d c (i + 1) cns cids w = (r, w') \<Longrightarrow>
      failures w' = failures w + (if \<exists>xs ys e. r = Return (xs, ys, Some e) then 1 else 0)"
    using Suc.hyps(2) by (intro Suc.hyps(1)) auto
  show ?case
    using Suc.prems
    by (subst (asm) categories_loop.simps)
       (auto simp: Let_def split: if_splits go_splits
         dest!: GetProperty_failures Release_failures IH)
qed

lemma kbaIDs_failures:
  assumes "kbaIDs u w = (r, w')"
  shows "failures w' = failures w + (if \<exists>xs e. r = Return (xs, Some e) then 1 else 0)"
  using assms
  unfolding kbaIDs_def deferred_def Let_def
  by (auto split: go_splits if_splits
      dest!: GetProperty_failures GetCount_failures kbaIDs_loop_failures Release_failures)

lemma moreInfoURLs_failures:
  assumes "moreInfoURLs u w = (r, w')"
  shows "failures w' = failures w + (if \<exists>xs e. r = Return (xs, Some e) then 1 else 0)"
  using assms
  unfolding moreInfoURLs_def deferred_def Let_def
  by (auto split: go_splits if_splits
      dest!: GetProperty_failures GetCount_failures moreInfoURLs_loop_failures Release_failures)

lemma categories_failures:
  assumes "categories u w = (r, w')"
  shows "failures w' = failures w + (if \<exists>xs ys e. r = Return (xs, ys, Some e) then 1 else 0)"
  using assms
  unfolding categories_def deferred_def Let_def
  by (auto split: go_splits if_splits
      dest!: GetProperty_failures GetCount_failures categories_loop_failures Release_failures)

lemma extractPkg_body_failures:
  assumes "extractPkg_body p u w = (r, w')"
  shows "failures w \<le> failures w' \<and> (failures w < failures w' \<longrightarrow> (\<exists>e. r = Return (Inl e))) \<and>
         (r \<noteq> Panic \<longrightarrow> update_IDispatch u \<noteq> None)"
  using assms
  unfolding extractPkg_body_def deferred_def Let_def
  by (auto split: go_splits if_splits
      dest!: GetProperty_failures kbaIDs_failures categories_failures moreInfoURLs_failures
        Release_failures)

lemma extractPkg_failures:
  assumes "extractPkg p c i w = (r, w')"
  shows "failures w \<le> failures w' \<and> (failures w < failures w' \<longrightarrow> (\<exists>e. r = Return (Inl e)))"
  using assms
  unfolding extractPkg_def deferred_def
  by (auto split: go_splits if_splits
      dest!: Item_failures extractPkg_body_failures Release_failures)

section \<open>The loop over the collection\<close>

lemma GetCount_reads:
  assumes "GetCount (Some (ComPtr h obj)) w = (r, w')" and "count_of obj = Some n"
  shows "r = Return (n, None)"
  using assms
  by (auto simp: GetCount_def call_defs Value_int32_def count_of_def
      split: option.splits if_splits sum.splits)


lemma WUAUpdates_loop_fail:
  assumes "i \<le> k" and "k < n"
    and "\<forall>j. i \<le> j \<and> j < k \<longrightarrow> (\<forall>w. \<exists>pkg w'. extractPkg p c j w = (Return (Inr pkg), w'))"
    and "\<forall>w. \<exists>err w'. extractPkg p c k w = (Return (Inl err), w')"
  shows "\<exists>err w'. WUAUpdates_loop p c n i acc w = (Return ([], Some err), w')"
  using assms
proof (induction "nat (k - i)" arbitrary: i acc w)
  case 0
  then have "i = k" by simp
  with 0 obtain err w' where "extractPkg p c i w = (Return (Inl err), w')"
    by blast
  with \<open>i = k\<close> 0 show ?case
    by (subst WUAUpdates_loop.simps) simp
next
  case (Suc m)
  from Suc.hyps(2) have lt: "i < k" by simp
  with Suc.prems obtain pkg w1 where e: "extractPkg p c i w = (Return (Inr pkg), w1)"
    by (metis order_refl)
  have "\<exists>err w'. WUAUpdates_loop p c n (i + 1) (acc @ [pkg]) w1 = (Return ([], Some err), w')"
  proof (rule Suc.hyps(1))
    show "m = nat (k - (i + 1))" using Suc.hyps(2) by simp
    show "i + 1 \<le> k" using lt by simp
    show "k < n" by (rule Suc.prems(2))
    show "\<forall>j. i + 1 \<le> j \<and> j < k \<longrightarrow> (\<forall>w. \<exists>pkg w'. extractPkg p c j w = (Return (Inr pkg), w'))"
      using Suc.prems(3) by simp
    show "\<forall>w. \<exists>err w'. extractPkg p c k w = (Return (Inl err), w')"
      by (rule Suc.prems(4))
  qed
  then show ?case
    using lt Suc.prems(2) e by (subst WUAUpdates_loop.simps) simp
qed

section \<open>What a search returns\<close>

lemmas run_defs = extractPkg_def Item_def extractPkg_body_def kbaIDs_def categories_def
  moreInfoURLs_def GetCount_def call_defs deferred_def Release_def Let_def ToIDispatch_def
  ToString_def Value_int32_def kbaIDs_loop.simps categories_loop.simps moreInfoURLs_loop.simps


lemma sample_update_extracts':
  "\<exists>w'. extractPkg (search_platform coll (\<lambda>d. Inr t))
          (IUpdateCollection (Some (ComPtr h (collection_of [dispatch sample_update, dispatch broken_update])))) 0 w
        = (Return (Inr (sample_package t)), w')"
  by (simp add: run_defs sample_defs vt_defs sample_package_def)

lemma broken_update_fails:
  "\<exists>r w'. extractPkg p
          (IUpdateCollection (Some (ComPtr h (collection_of [dispatch sample_update, dispatch broken_update])))) 1 w
        = (r, w') \<and> failures w < failures w'"
  by (simp add: run_defs sample_defs vt_defs broken_update_def)




text \<open>
  C2. When the collection that a search finds reports \<open>N\<close> items, the extraction of
  each item before the \<open>K\<close>-th succeeds, and a property read fails during the extraction
  of the \<open>K\<close>-th item (\<open>K < N\<close>), \<open>WUAUpdates\<close> returns an error and the nil list: none of
  the \<open>K\<close> packages extracted before is returned.
\<close>

theorem WUAUpdates_fails_fast:
  assumes "search_collection p q = Some coll" and "\<not> mutex w"
    and "count_of coll = Some n" and "sint n = int N" and "K < N"
    and "\<forall>i<K. \<forall>h w. \<exists>pkg w'.
           extractPkg p (IUpdateCollection (Some (ComPtr h coll))) (int i) w = (Return (Inr pkg), w')"
    and "\<forall>h w. \<exists>r w'.
           extractPkg p (IUpdateCollection (Some (ComPtr h coll))) (int K) w = (r, w') \<and>
           failures w < failures w'"
  shows "\<exists>err w'. WUAUpdates p q w = Some (Return ([], Some err), w')"
proof -
  from WUAUpdates_found [OF assms(1,2)] obtain h w1 where
    f: "\<And>r w2. WUAUpdates_body p (IUpdateCollection (Some (ComPtr h coll))) w1 = (r, w2) \<Longrightarrow>
          \<exists>w3. WUAUpdates p q w = Some (r, w3)"
    by blast
  let ?c = "IUpdateCollection (Some (ComPtr h coll))"
  obtain rc wc where c: "GetCount (Some (ComPtr h coll)) w1 = (rc, wc)"
    by (cases "GetCount (Some (ComPtr h coll)) w1")
  from GetCount_reads [OF c assms(3)] have rc: "rc = Return (n, None)" .
  have before: "\<forall>j. 0 \<le> j \<and> j < int K \<longrightarrow> (\<forall>w. \<exists>pkg w'. extractPkg p ?c j w = (Return (Inr pkg), w'))"
  proof (intro allI impI)
    fix j :: int and w
    assume j: "0 \<le> j \<and> j < int K"
    then have "nat j < K" by linarith
    with assms(6) j show "\<exists>pkg w'. extractPkg p ?c j w = (Return (Inr pkg), w')"
      by (metis int_nat_eq)
  qed
  have at: "\<forall>w. \<exists>err w'. extractPkg p ?c (int K) w = (Return (Inl err), w')"
  proof
    fix w
    from assms(7) obtain r w' where
      e: "extractPkg p ?c (int K) w = (r, w')" "failures w < failures w'"
      by blast
    from extractPkg_failures [OF e(1)] e(2) obtain err where "r = Return (Inl err)"
      by blast
    with e(1) show "\<exists>err w'. extractPkg p ?c (int K) w = (Return (Inl err), w')"
      by blast
  qed
  from assms(4,5) have k: "int K < sint n" "(0 :: int) \<le> int K"
    by simp_all
  from WUAUpdates_loop_fail [OF k(2) k(1) before at, of "[]" wc] obtain err w2 where
    l: "WUAUpdates_loop p ?c (sint n) 0 [] wc = (Return ([], Some err), w2)"
    by blast
  from k have "n \<noteq> 0"
    by auto
  with c rc l have "WUAUpdates_body p ?c w1 = (Return ([], Some err), w2)"
    by (simp add: WUAUpdates_body_def Count_def)
  from f [OF this] show ?thesis
    by blast
qed

theorem WUAUpdates_fails_fast_witness:
  "\<exists>err w'. WUAUpdates
       (search_platform (collection_of [dispatch sample_update, dispatch broken_update]) (\<lambda>d. Inr 0))
       ''IsInstalled=0'' idle_world = Some (Return ([], Some err), w')"
proof -
  let ?coll = "collection_of [dispatch sample_update, dispatch broken_update]"
  let ?p = "search_platform ?coll (\<lambda>d. Inr 0)"
  have c: "count_of ?coll = Some 2" "sint (2 :: 32 word) = int 2" "(1 :: nat) < 2"
    by (simp_all add: sample_defs vt_defs)
  have i: "\<not> mutex idle_world"
    by (simp add: idle_world_def)
  have e: "\<forall>i<1. \<forall>h w. \<exists>pkg w'.
           extractPkg ?p (IUpdateCollection (Some (ComPtr h ?coll))) (int i) w = (Return (Inr pkg), w')"
  proof (intro allI impI)
    fix i :: nat and h w
    assume "i < 1"
    then have "int i = 0" by simp
    with sample_update_extracts' [of ?coll 0 h w]
    show "\<exists>pkg w'. extractPkg ?p (IUpdateCollection (Some (ComPtr h ?coll))) (int i) w = (Return (Inr pkg), w')"
      by auto
  qed
  have b: "\<forall>h w. \<exists>r w'.
           extractPkg ?p (IUpdateCollection (Some (ComPtr h ?coll))) (int 1) w = (r, w') \<and>
           failures w < failures w'"
    using broken_update_fails [of ?p] by simp
  from WUAUpdates_fails_fast [OF search_platform_finds i c e b] show ?thesis .
qed

section \<open>The events of a call\<close>

lemma invoke_trace:
  assumes "invoke mk ans d n a w = (r, w')"
  shows "trace w' = trace w @ (case d of None \<Rightarrow> [] | Some ptr \<Rightarrow> [mk (hid ptr) n a (result_of r)]) \<and>
         (r = Panic \<longleftrightarrow> d = None)"
  using assms
  by (cases d) (auto simp: invoke_Some invoke_None split: sum.splits option.splits)

lemma GetProperty_trace:
  assumes "GetProperty d n a w = (r, w')"
  shows "trace w' = trace w @ (case d of None \<Rightarrow> [] | Some ptr \<Rightarrow> [PropertyGet (hid ptr) n a (result_of r)]) \<and>
         (r = Panic \<longleftrightarrow> d = None)"
  using assms unfolding GetProperty_def by (rule invoke_trace)

lemma CallMethod_trace:
  assumes "CallMethod d n a w = (r, w')"
  shows "trace w' = trace w @ (case d of None \<Rightarrow> [] | Some ptr \<Rightarrow> [MethodCall (hid ptr) n a (result_of r)]) \<and>
         (r = Panic \<longleftrightarrow> d = None)"
  using assms unfolding CallMethod_def by (rule invoke_trace)

lemma PutProperty_trace:
  assumes "PutProperty d n a w = (r, w')"
  shows "trace w' = trace w @ (case d of None \<Rightarrow> [] | Some ptr \<Rightarrow> [PropertyPut (hid ptr) n a (result_of r)]) \<and>
         (r = Panic \<longleftrightarrow> d = None)"
  using assms unfolding PutProperty_def by (rule invoke_trace)

lemma Release_trace:
  assumes "Release d w = (r, w')"
  shows "trace w' = trace w @ (case d of None \<Rightarrow> [] | Some ptr \<Rightarrow> [Released (hid ptr)]) \<and>
         (r = Panic \<longleftrightarrow> d = None)"
  using assms by (cases d) (auto simp: Release_def)

lemma GetScodeString_trace:
  assumes "GetScodeString err w = (r, w')"
  shows "\<exists>evs. trace w' = trace w @ evs \<and>
           (\<forall>ev\<in>set evs. \<forall>name. \<not> is_call name ev) \<and> (\<forall>ev\<in>set evs. \<forall>h n a x. ev \<noteq> PropertyGet h n a x)"
  using assms
  by (auto simp: GetScodeString_def split: option.splits go_error.splits)

lemma NewUpdateCollection_trace:
  assumes "NewUpdateCollection p w = (r, w')"
  shows "\<exists>evs. trace w' = trace w @ evs \<and>
           (\<forall>ev\<in>set evs. \<forall>name. \<not> is_call name ev) \<and> (\<forall>ev\<in>set evs. \<forall>h n a x. ev \<noteq> PropertyGet h n a x) \<and>
           (\<forall>c. r = Return (Inr c) \<longrightarrow> collection_IDispatch c \<noteq> None)"
  using assms
  by (auto simp: NewUpdateCollection_def CreateObject_def QueryInterface_def deferred_def Release_def
      split: go_splits)

lemma Add_trace:
  assumes "Add c u w = (r, w')"
  shows "\<exists>evs. trace w' = trace w @ evs \<and>
           (\<forall>ev\<in>set evs. is_call ''Add'' ev)"
  using assms
  by (auto simp: Add_def split: go_splits dest!: CallMethod_trace)

lemma guarded_append:
  "guarded pre act seen (xs @ ys) =
     (guarded pre act seen xs \<and> guarded pre act (seen \<or> (\<exists>ev\<in>set xs. pre ev)) ys)"
  by (induction xs arbitrary: seen) auto

lemma guarded_seen: "guarded pre act True xs"
  by (induction xs) auto

lemma guarded_no_act: "\<forall>ev\<in>set xs. \<not> act ev \<Longrightarrow> guarded pre act seen xs"
  by (induction xs arbitrary: seen) auto

lemma DownloadWUAUpdateCollection_trace:
  assumes "DownloadWUAUpdateCollection s c w = (r, w')"
  shows "\<exists>evs. trace w' = trace w @ evs \<and>
           (\<forall>ev\<in>set evs. \<not> is_call ''Install'' ev \<and> \<not> is_call ''AcceptEula'' ev) \<and>
           (\<forall>ev\<in>set evs. \<forall>h n a x. ev \<noteq> PropertyGet h n a x) \<and>
           (r = Return None \<longrightarrow> (\<exists>ev\<in>set evs. download_ok ev))"
  using assms
  unfolding DownloadWUAUpdateCollection_def deferred_def Let_def
  by (auto simp: download_ok_def split: go_splits
      dest!: CallMethod_trace PutProperty_trace Release_trace GetScodeString_trace)

section \<open>The events of an install attempt\<close>

lemma guarded_seen_simp [simp]: "guarded pre act True xs = True"
  by (simp add: guarded_seen)

lemma InstallWUAUpdateCollection_trace:
  assumes "InstallWUAUpdateCollection s c w = (r, w')"
  shows "\<exists>evs. trace w' = trace w @ evs \<and>
           (\<forall>ev\<in>set evs. \<not> is_call ''AcceptEula'' ev) \<and>
           (\<forall>ev\<in>set evs. \<not> download_phase ev) \<and>
           (\<forall>ev\<in>set evs. \<forall>h n a x. ev \<noteq> PropertyGet h n a x)"
  using assms
  unfolding InstallWUAUpdateCollection_def deferred_def Let_def
  by (auto simp: download_phase_def split: go_splits
      dest!: CallMethod_trace PutProperty_trace Release_trace GetScodeString_trace)

lemma InstallWUAUpdate_phases_trace:
  assumes "InstallWUAUpdate_phases s title updts w = (r, w')"
  shows "\<exists>evs. trace w' = trace w @ evs \<and>
           guarded download_ok (is_call ''Install'') False evs \<and>
           (\<forall>ev\<in>set evs. \<not> is_call ''AcceptEula'' ev) \<and>
           (\<forall>ev\<in>set evs. \<forall>h n a x. ev \<noteq> PropertyGet h n a x)"
proof -
  obtain r1 w1 where d: "DownloadWUAUpdateCollection s updts (emit (Debugf ''Downloading update %s'' [value_arg title]) w) = (r1, w1)"
    by (cases "DownloadWUAUpdateCollection s updts (emit (Debugf ''Downloading update %s'' [value_arg title]) w)")
  from DownloadWUAUpdateCollection_trace [OF d] obtain evs1 where
    1: "trace w1 = trace w @ [Debugf ''Downloading update %s'' [value_arg title]] @ evs1"
       "\<forall>ev\<in>set evs1. \<not> is_call ''Install'' ev \<and> \<not> is_call ''AcceptEula'' ev"
       "\<forall>ev\<in>set evs1. \<forall>h n a x. ev \<noteq> PropertyGet h n a x"
       "r1 = Return None \<longrightarrow> (\<exists>ev\<in>set evs1. download_ok ev)"
    by auto
  from 1(2) have g1: "guarded download_ok (is_call ''Install'') False evs1"
    by (intro guarded_no_act) simp
  show ?thesis
  proof (cases "r1 = Return None")
    case False
    with assms d have "w' = w1"
      by (auto simp: InstallWUAUpdate_phases_def split: go_splits)
    with 1 g1 show ?thesis
      by (auto simp: guarded_append download_ok_def)
  next
    case True
    obtain r2 w2 where i: "InstallWUAUpdateCollection s updts (emit (Debugf ''Installing update %s'' [value_arg title]) w1) = (r2, w2)"
      by (cases "InstallWUAUpdateCollection s updts (emit (Debugf ''Installing update %s'' [value_arg title]) w1)")
    from InstallWUAUpdateCollection_trace [OF i] obtain evs2 where
      2: "trace w2 = trace w1 @ [Debugf ''Installing update %s'' [value_arg title]] @ evs2"
         "\<forall>ev\<in>set evs2. \<not> is_call ''AcceptEula'' ev"
         "\<forall>ev\<in>set evs2. \<forall>h n a x. ev \<noteq> PropertyGet h n a x"
      by auto
    from assms d i True have "w' = w2"
      by (auto simp: InstallWUAUpdate_phases_def split: go_splits)
    with 1 2 g1 True show ?thesis
      by (auto simp: guarded_append download_ok_def)
  qed
qed

lemma InstallWUAUpdate_accept_trace:
  assumes "InstallWUAUpdate_accept updt title eula w = (r, w')"
  shows "\<exists>evs. trace w' = trace w @ evs \<and>
           (\<forall>ev\<in>set evs. \<not> is_call ''Install'' ev) \<and>
           (\<forall>ev\<in>set evs. \<not> download_phase ev) \<and>
           (\<forall>ev\<in>set evs. \<forall>h n a x. ev \<noteq> PropertyGet h n a x) \<and>
           (Val eula \<noteq> 0 \<longrightarrow> (\<forall>ev\<in>set evs. \<not> is_call ''AcceptEula'' ev)) \<and>
           (Val eula = 0 \<and> update_IDispatch updt \<noteq> None \<longrightarrow>
              length (filter (is_call ''AcceptEula'') evs) = 1)"
  using assms
  unfolding InstallWUAUpdate_accept_def
  by (auto simp: download_phase_def split: go_splits if_splits dest!: CallMethod_trace)

lemma guarded_skip:
  assumes "\<forall>ev\<in>set xs. \<not> act ev" and "\<forall>ev\<in>set xs. \<not> pre ev"
  shows "guarded pre act seen (xs @ ys) = guarded pre act seen ys"
  using assms by (simp add: guarded_append guarded_no_act)

lemma guarded_after:
  assumes "\<forall>ev\<in>set xs. \<not> act ev" and "\<exists>ev\<in>set xs. pre ev"
  shows "guarded pre act seen (xs @ ys)"
  using assms by (simp add: guarded_append guarded_no_act)

lemma download_ok_phase: "download_ok ev \<Longrightarrow> download_phase ev"
  by (simp add: download_ok_def download_phase_def)

lemma filter_one_ex: "length (filter P xs) = 1 \<Longrightarrow> \<exists>x\<in>set xs. P x"
  by (metis filter_False length_0_conv zero_neq_one)

lemma InstallWUAUpdate_body_trace:
  assumes "InstallWUAUpdate_body s updt title updts w = (r, w')"
  shows "\<exists>evs. trace w' = trace w @ evs \<and>
           guarded download_ok (is_call ''Install'') False evs \<and>
           (\<forall>h0 vt v h. PropertyGet h0 ''EulaAccepted'' [] (Got vt v h) \<in> set evs \<longrightarrow>
              (v = 0 \<longrightarrow> length (filter (is_call ''AcceptEula'') evs) = 1 \<and>
                         guarded (is_call ''AcceptEula'') download_phase False evs) \<and>
              (v \<noteq> 0 \<longrightarrow> filter (is_call ''AcceptEula'') evs = []))"
proof -
  let ?G = "\<lambda>evs. guarded download_ok (is_call ''Install'') False evs \<and>
           (\<forall>h0 vt v h. PropertyGet h0 ''EulaAccepted'' [] (Got vt v h) \<in> set evs \<longrightarrow>
              (v = 0 \<longrightarrow> length (filter (is_call ''AcceptEula'') evs) = 1 \<and>
                         guarded (is_call ''AcceptEula'') download_phase False evs) \<and>
              (v \<noteq> 0 \<longrightarrow> filter (is_call ''AcceptEula'') evs = []))"
  obtain r1 w1 where e: "GetProperty (update_IDispatch updt) ''EulaAccepted'' [] w = (r1, w1)"
    by (cases "GetProperty (update_IDispatch updt) ''EulaAccepted'' [] w")
  define E1 where "E1 = (case update_IDispatch updt of None \<Rightarrow> []
     | Some ptr \<Rightarrow> [PropertyGet (hid ptr) ''EulaAccepted'' [] (result_of r1)])"
  from GetProperty_trace [OF e] have t1: "trace w1 = trace w @ E1"
    and p1: "r1 = Panic \<longleftrightarrow> update_IDispatch updt = None"
    by (simp_all add: E1_def)
  have q1: "\<forall>ev\<in>set E1. \<not> is_call ''Install'' ev" "\<forall>ev\<in>set E1. \<not> download_phase ev"
    "\<forall>ev\<in>set E1. \<not> download_ok ev" "\<forall>ev\<in>set E1. \<not> is_call ''AcceptEula'' ev"
    by (auto simp: E1_def download_phase_def download_ok_def split: option.splits)
  show ?thesis
  proof (cases "\<exists>eula. r1 = Return (Inr eula)")
    case False
    with assms e have w': "w' = w1"
      by (auto simp: InstallWUAUpdate_body_def split: go_splits)
    from False have "result_of r1 = Failed"
      by (cases r1 rule: result_of.cases) auto
    then have "\<forall>h0 vt v h. PropertyGet h0 ''EulaAccepted'' [] (Got vt v h) \<notin> set E1"
      by (auto simp: E1_def split: option.splits)
    with q1 have "?G E1"
      by (simp add: guarded_no_act)
    with t1 w' show ?thesis
      by blast
  next
    case True
    then obtain eula where eula: "r1 = Return (Inr eula)"
      by blast
    with p1 obtain ptr where ptr: "update_IDispatch updt = Some ptr"
      by auto
    from eula ptr have E1: "E1 = [PropertyGet (hid ptr) ''EulaAccepted'' [] (Got (VT eula) (Val eula) (map_option hid (pdispVal eula)))]"
      by (simp add: E1_def)
    obtain r2 w2 where a: "InstallWUAUpdate_accept updt title eula w1 = (r2, w2)"
      by (cases "InstallWUAUpdate_accept updt title eula w1")
    from InstallWUAUpdate_accept_trace [OF a] ptr obtain E2 where
      t2: "trace w2 = trace w1 @ E2"
      and q2: "\<forall>ev\<in>set E2. \<not> is_call ''Install'' ev" "\<forall>ev\<in>set E2. \<not> download_phase ev"
        "\<forall>ev\<in>set E2. \<forall>h n a x. ev \<noteq> PropertyGet h n a x"
        "Val eula \<noteq> 0 \<longrightarrow> (\<forall>ev\<in>set E2. \<not> is_call ''AcceptEula'' ev)"
        "Val eula = 0 \<longrightarrow> length (filter (is_call ''AcceptEula'') E2) = 1"
      by auto
    from q2(2) have q2': "\<forall>ev\<in>set E2. \<not> download_ok ev"
      by (auto dest: download_ok_phase)
    have rest: "?G (E1 @ E2 @ E3)"
      if g: "guarded download_ok (is_call ''Install'') False E3"
        and na: "\<forall>ev\<in>set E3. \<not> is_call ''AcceptEula'' ev"
        and np: "\<forall>ev\<in>set E3. \<forall>h n a x. ev \<noteq> PropertyGet h n a x" for E3
    proof -
      have 1: "guarded download_ok (is_call ''Install'') False (E1 @ E2 @ E3)"
        using q1 q2 q2' g by (simp add: guarded_skip)
      have v: "v = Val eula" if "PropertyGet h0 ''EulaAccepted'' [] (Got vt v h) \<in> set (E1 @ E2 @ E3)" for h0 vt v h
        using that q2(3) np by (auto simp: E1)
      have 2: "length (filter (is_call ''AcceptEula'') (E1 @ E2 @ E3)) = 1 \<and>
               guarded (is_call ''AcceptEula'') download_phase False (E1 @ E2 @ E3)" if "Val eula = 0"
      proof -
        from that q2(5) have one: "length (filter (is_call ''AcceptEula'') E2) = 1"
          by simp
        then have ex: "\<exists>ev\<in>set E2. is_call ''AcceptEula'' ev"
          by (rule filter_one_ex)
        have "guarded (is_call ''AcceptEula'') download_phase False (E2 @ E3)"
          using q2(2) ex by (rule guarded_after)
        then have "guarded (is_call ''AcceptEula'') download_phase False (E1 @ E2 @ E3)"
          using q1(2,4) by (simp add: guarded_skip)
        moreover have "length (filter (is_call ''AcceptEula'') (E1 @ E2 @ E3)) = 1"
          using one q1(4) na by simp
        ultimately show ?thesis
          by simp
      qed
      have 3: "filter (is_call ''AcceptEula'') (E1 @ E2 @ E3) = []" if "Val eula \<noteq> 0"
        using that q1(4) q2(4) na by simp
      show ?thesis
      proof (intro conjI allI impI)
        show "guarded download_ok (is_call ''Install'') False (E1 @ E2 @ E3)"
          by (rule 1)
      next
        fix h0 vt v' h
        assume "PropertyGet h0 ''EulaAccepted'' [] (Got vt v' h) \<in> set (E1 @ E2 @ E3)" "v' = 0"
        with v have "Val eula = 0" by metis
        from 2 [OF this] show "length (filter (is_call ''AcceptEula'') (E1 @ E2 @ E3)) = 1"
          by simp
      next
        fix h0 vt v' h
        assume "PropertyGet h0 ''EulaAccepted'' [] (Got vt v' h) \<in> set (E1 @ E2 @ E3)" "v' = 0"
        with v have "Val eula = 0" by metis
        from 2 [OF this] show "guarded (is_call ''AcceptEula'') download_phase False (E1 @ E2 @ E3)"
          by simp
      next
        fix h0 vt v' h
        assume "PropertyGet h0 ''EulaAccepted'' [] (Got vt v' h) \<in> set (E1 @ E2 @ E3)" "v' \<noteq> 0"
        with v have "Val eula \<noteq> 0" by metis
        from 3 [OF this] show "filter (is_call ''AcceptEula'') (E1 @ E2 @ E3) = []" .
      qed
    qed
    show ?thesis
    proof (cases "r2 = Return None")
      case False
      with assms e eula a have "w' = w2"
        by (auto simp: InstallWUAUpdate_body_def split: go_splits)
      with t1 t2 rest [of "[]"] show ?thesis
        by auto
    next
      case r2: True
      obtain r3 w3 where ad: "Add updts updt w2 = (r3, w3)"
        by (cases "Add updts updt w2")
      from Add_trace [OF ad] obtain E3 where
        t3: "trace w3 = trace w2 @ E3" and q3: "\<forall>ev\<in>set E3. is_call ''Add'' ev"
        by auto
      have q3': "\<forall>ev\<in>set E3. \<not> is_call ''Install'' ev" "\<forall>ev\<in>set E3. \<not> is_call ''AcceptEula'' ev"
        "\<forall>ev\<in>set E3. \<forall>h n a x. ev \<noteq> PropertyGet h n a x" "\<forall>ev\<in>set E3. \<not> download_ok ev"
        using q3 by (auto simp: download_ok_def elim!: is_call.elims)
      show ?thesis
      proof (cases "r3 = Return None")
        case False
        with assms e eula a r2 ad have "w' = w3"
          by (auto simp: InstallWUAUpdate_body_def split: go_splits)
        moreover have "?G (E1 @ E2 @ E3)"
          using q3' by (intro rest) (simp_all add: guarded_no_act)
        ultimately show ?thesis
          using t1 t2 t3 by auto
      next
        case r3: True
        with assms e eula a r2 ad have ph: "InstallWUAUpdate_phases s title updts w3 = (r, w')"
          by (simp add: InstallWUAUpdate_body_def)
        from InstallWUAUpdate_phases_trace [OF ph] obtain E4 where
          t4: "trace w' = trace w3 @ E4"
          and q4: "guarded download_ok (is_call ''Install'') False E4"
            "\<forall>ev\<in>set E4. \<not> is_call ''AcceptEula'' ev"
            "\<forall>ev\<in>set E4. \<forall>h n a x. ev \<noteq> PropertyGet h n a x"
          by auto
        have "?G (E1 @ E2 @ (E3 @ E4))"
          using q3' q4 by (intro rest) (auto simp: guarded_skip)
        then show ?thesis
          using t1 t2 t3 t4 by auto
      qed
    qed
  qed
qed

lemma guarded_needs_pre:
  assumes "guarded pre act False xs" and "\<forall>ev\<in>set xs. \<not> pre ev"
  shows "\<forall>ev\<in>set xs. \<not> act ev"
  using assms by (induction xs) auto

lemma InstallWUAUpdate_trace:
  assumes "InstallWUAUpdate p s updt w = (r, w')"
  shows "\<exists>evs. trace w' = trace w @ evs \<and>
           guarded download_ok (is_call ''Install'') False evs \<and>
           (\<forall>h0 vt v h. PropertyGet h0 ''EulaAccepted'' [] (Got vt v h) \<in> set evs \<longrightarrow>
              (v = 0 \<longrightarrow> length (filter (is_call ''AcceptEula'') evs) = 1 \<and>
                         guarded (is_call ''AcceptEula'') download_phase False evs) \<and>
              (v \<noteq> 0 \<longrightarrow> filter (is_call ''AcceptEula'') evs = []))"
proof -
  let ?G = "\<lambda>evs. guarded download_ok (is_call ''Install'') False evs \<and>
           (\<forall>h0 vt v h. PropertyGet h0 ''EulaAccepted'' [] (Got vt v h) \<in> set evs \<longrightarrow>
              (v = 0 \<longrightarrow> length (filter (is_call ''AcceptEula'') evs) = 1 \<and>
                         guarded (is_call ''AcceptEula'') download_phase False evs) \<and>
              (v \<noteq> 0 \<longrightarrow> filter (is_call ''AcceptEula'') evs = []))"
  have frame: "?G (pre @ evs @ post)"
    if "?G evs"
      and "\<forall>ev\<in>set pre. \<forall>name. \<not> is_call name ev"
      and "\<forall>ev\<in>set pre. \<forall>h x. ev \<noteq> PropertyGet h ''EulaAccepted'' [] x"
      and "\<forall>ev\<in>set post. \<forall>name. \<not> is_call name ev"
      and "\<forall>ev\<in>set post. \<forall>h x. ev \<noteq> PropertyGet h ''EulaAccepted'' [] x"
    for pre evs post
  proof -
    have a: "\<forall>ev\<in>set pre. \<not> download_ok ev" "\<forall>ev\<in>set pre. \<not> download_phase ev"
      "\<forall>ev\<in>set post. \<not> download_ok ev" "\<forall>ev\<in>set post. \<not> download_phase ev"
      using that(2,4) by (auto simp: download_ok_def download_phase_def)
    have g1: "guarded download_ok (is_call ''Install'') False (pre @ evs @ post)"
      using that(1,2,4) a by (simp add: guarded_skip) (simp add: guarded_append guarded_no_act)
    have g2: "guarded (is_call ''AcceptEula'') download_phase False (pre @ evs @ post)"
      if "guarded (is_call ''AcceptEula'') download_phase False evs"
      using that \<open>\<forall>ev\<in>set pre. \<forall>name. \<not> is_call name ev\<close> a
      by (simp add: guarded_skip) (simp add: guarded_append guarded_no_act)
    have f: "filter (is_call ''AcceptEula'') (pre @ evs @ post) = filter (is_call ''AcceptEula'') evs"
      using that(2,4) by simp
    have m: "PropertyGet h0 ''EulaAccepted'' [] (Got vt v h) \<in> set evs"
      if "PropertyGet h0 ''EulaAccepted'' [] (Got vt v h) \<in> set (pre @ evs @ post)" for h0 vt v h
      using that \<open>\<forall>ev\<in>set pre. \<forall>h x. ev \<noteq> PropertyGet h ''EulaAccepted'' [] x\<close>
        \<open>\<forall>ev\<in>set post. \<forall>h x. ev \<noteq> PropertyGet h ''EulaAccepted'' [] x\<close>
      by auto
    show ?thesis
    proof (intro conjI allI impI)
      show "guarded download_ok (is_call ''Install'') False (pre @ evs @ post)"
        by (rule g1)
    next
      fix h0 vt v h
      assume "PropertyGet h0 ''EulaAccepted'' [] (Got vt v h) \<in> set (pre @ evs @ post)" "v = 0"
      with m that(1) show "length (filter (is_call ''AcceptEula'') (pre @ evs @ post)) = 1"
        unfolding f by blast
    next
      fix h0 vt v h
      assume "PropertyGet h0 ''EulaAccepted'' [] (Got vt v h) \<in> set (pre @ evs @ post)" "v = 0"
      with m that(1) have "guarded (is_call ''AcceptEula'') download_phase False evs"
        by blast
      then show "guarded (is_call ''AcceptEula'') download_phase False (pre @ evs @ post)"
        by (rule g2)
    next
      fix h0 vt v h
      assume "PropertyGet h0 ''EulaAccepted'' [] (Got vt v h) \<in> set (pre @ evs @ post)" "v \<noteq> 0"
      with m that(1) show "filter (is_call ''AcceptEula'') (pre @ evs @ post) = []"
        unfolding f by blast
    qed
  qed
  have empty: "?G []"
    by simp
  obtain r0 w0 where t: "GetProperty (update_IDispatch updt) ''Title'' [] w = (r0, w0)"
    by (cases "GetProperty (update_IDispatch updt) ''Title'' [] w")
  define E0 where "E0 = (case update_IDispatch updt of None \<Rightarrow> []
     | Some ptr \<Rightarrow> [PropertyGet (hid ptr) ''Title'' [] (result_of r0)])"
  from GetProperty_trace [OF t] have t0: "trace w0 = trace w @ E0"
    by (simp add: E0_def)
  have q0: "\<forall>ev\<in>set E0. \<forall>name. \<not> is_call name ev"
    "\<forall>ev\<in>set E0. \<forall>h x. ev \<noteq> PropertyGet h ''EulaAccepted'' [] x"
    by (auto simp: E0_def split: option.splits)
  show ?thesis
  proof (cases "\<exists>title. r0 = Return (Inr title)")
    case False
    with assms t have "w' = w0"
      by (auto simp: InstallWUAUpdate_def split: go_splits)
    moreover from frame [OF empty q0, of "[]"] have "?G E0"
      by simp
    ultimately show ?thesis
      using t0 by blast
  next
    case True
    then obtain title where title: "r0 = Return (Inr title)"
      by blast
    obtain rc wc where c: "NewUpdateCollection p w0 = (rc, wc)"
      by (cases "NewUpdateCollection p w0")
    from NewUpdateCollection_trace [OF c] obtain EC where
      tc: "trace wc = trace w0 @ EC"
      and qc: "\<forall>ev\<in>set EC. \<forall>name. \<not> is_call name ev" "\<forall>ev\<in>set EC. \<forall>h n a x. ev \<noteq> PropertyGet h n a x"
        "\<forall>c. rc = Return (Inr c) \<longrightarrow> collection_IDispatch c \<noteq> None"
      by auto
    have qpre: "\<forall>ev\<in>set (E0 @ EC). \<forall>name. \<not> is_call name ev"
      "\<forall>ev\<in>set (E0 @ EC). \<forall>h x. ev \<noteq> PropertyGet h ''EulaAccepted'' [] x"
      using q0 qc by auto
    show ?thesis
    proof (cases "\<exists>updts. rc = Return (Inr updts)")
      case False
      with assms t title c have "w' = wc"
        by (auto simp: InstallWUAUpdate_def split: go_splits)
      moreover from frame [OF empty qpre, of "[]"] have "?G (E0 @ EC)"
        by simp
      ultimately show ?thesis
        using t0 tc by auto
    next
      case True
      then obtain updts where updts: "rc = Return (Inr updts)"
        by blast
      obtain rb wb where b: "InstallWUAUpdate_body s updt title updts wc = (rb, wb)"
        by (cases "InstallWUAUpdate_body s updt title updts wc")
      from InstallWUAUpdate_body_trace [OF b] obtain EB where
        tb: "trace wb = trace wc @ EB" and gb: "?G EB"
        by blast
      obtain rr wr where rel: "Release (collection_IDispatch updts) wb = (rr, wr)"
        by (cases "Release (collection_IDispatch updts) wb")
      define ER where "ER = (case collection_IDispatch updts of None \<Rightarrow> [] | Some ptr \<Rightarrow> [Released (hid ptr)])"
      from Release_trace [OF rel] have tr: "trace wr = trace wb @ ER"
        by (simp add: ER_def)
      have qr: "\<forall>ev\<in>set ER. \<forall>name. \<not> is_call name ev"
        "\<forall>ev\<in>set ER. \<forall>h x. ev \<noteq> PropertyGet h ''EulaAccepted'' [] x"
        by (auto simp: ER_def split: option.splits)
      from assms t title c updts b rel have "w' = wr"
        by (auto simp: InstallWUAUpdate_def deferred_def split: go_splits)
      moreover from frame [OF gb qpre qr] have "?G ((E0 @ EC) @ EB @ ER)" .
      ultimately show ?thesis
        using t0 tc tb tr by auto
    qed
  qed
qed

lemma new_events_append: "trace w' = trace w @ evs \<Longrightarrow> new_events w w' = evs"
  by (simp add: new_events_def)

text \<open>
  C3. In every run of \<open>InstallWUAUpdate\<close> in which the license flag \<open>EulaAccepted\<close> of
  the update is read with the value \<open>v\<close>: when \<open>v\<close> is 0 (not accepted), the method
  \<open>AcceptEula\<close> is called exactly once, and every call of the download phase
  (\<open>CreateUpdateDownloader\<close>, \<open>Download\<close>) comes after it; when \<open>v\<close> is not 0
  (accepted), \<open>AcceptEula\<close> is not called.
\<close>

theorem InstallWUAUpdate_accepts_eula_once:
  assumes "InstallWUAUpdate p s updt w = (r, w')"
    and "PropertyGet h0 ''EulaAccepted'' [] (Got vt v h) \<in> set (new_events w w')"
  shows "(v = 0 \<longrightarrow>
            length (filter (is_call ''AcceptEula'') (new_events w w')) = 1 \<and>
            guarded (is_call ''AcceptEula'') download_phase False (new_events w w')) \<and>
         (v \<noteq> 0 \<longrightarrow> filter (is_call ''AcceptEula'') (new_events w w') = [])"
proof -
  from InstallWUAUpdate_trace [OF assms(1)] obtain evs where
    e: "trace w' = trace w @ evs"
    and g: "\<forall>h0 vt v h. PropertyGet h0 ''EulaAccepted'' [] (Got vt v h) \<in> set evs \<longrightarrow>
              (v = 0 \<longrightarrow> length (filter (is_call ''AcceptEula'') evs) = 1 \<and>
                         guarded (is_call ''AcceptEula'') download_phase False evs) \<and>
              (v \<noteq> 0 \<longrightarrow> filter (is_call ''AcceptEula'') evs = [])"
    by blast
  from new_events_append [OF e] have n: "new_events w w' = evs" .
  from g [rule_format, of h0 vt v h] assms(2) show ?thesis
    unfolding n by blast
qed

text \<open>
  C4. In every run of \<open>InstallWUAUpdate\<close>, every call of the method \<open>Install\<close> comes
  after a call of the method \<open>Download\<close> that succeeded; so in a run in which no call of
  \<open>Download\<close> succeeded (it failed, or it was never made), \<open>Install\<close> is not called.
\<close>

theorem InstallWUAUpdate_downloads_first:
  assumes "InstallWUAUpdate p s updt w = (r, w')"
  shows "guarded download_ok (is_call ''Install'') False (new_events w w') \<and>
         ((\<forall>ev\<in>set (new_events w w'). \<not> download_ok ev) \<longrightarrow>
          (\<forall>ev\<in>set (new_events w w'). \<not> is_call ''Install'' ev))"
proof -
  from InstallWUAUpdate_trace [OF assms] obtain evs where
    e: "trace w' = trace w @ evs"
    and g: "guarded download_ok (is_call ''Install'') False evs"
    by blast
  from new_events_append [OF e] have n: "new_events w w' = evs" .
  from g guarded_needs_pre [OF g] show ?thesis
    unfolding n by blast
qed

lemmas install_defs = InstallWUAUpdate_def InstallWUAUpdate_body_def InstallWUAUpdate_accept_def
  InstallWUAUpdate_phases_def NewUpdateCollection_def CreateObject_def QueryInterface_def Add_def
  DownloadWUAUpdateCollection_def InstallWUAUpdateCollection_def GetScodeString_def
  call_defs deferred_def Release_def Let_def ToIDispatch_def disp_arg_def value_arg_def
  install_platform_def install_session_def session_world_def accepting_def licensed_update_def
  new_events_def download_ok_def download_phase_def

lemma run_unlicensed:
  "\<exists>w'. InstallWUAUpdate install_platform (install_session True) (IUpdate (Some (ComPtr 1 sample_update)))
          session_world = (Return None, w') \<and>
        PropertyGet 1 ''EulaAccepted'' [] (Got VT_BOOL 0 None) \<in> set (new_events session_world w') \<and>
        (\<exists>ev\<in>set (new_events session_world w'). is_call ''Install'' ev)"
  by (simp add: install_defs sample_defs vt_defs)

lemma run_licensed:
  "\<exists>w'. InstallWUAUpdate install_platform (install_session True) (IUpdate (Some (ComPtr 1 licensed_update)))
          session_world = (Return None, w') \<and>
        PropertyGet 1 ''EulaAccepted'' [] (Got VT_BOOL 0xFFFF None) \<in> set (new_events session_world w')"
  by (simp add: install_defs sample_defs vt_defs)

lemma run_failed_download:
  "\<exists>err w'. InstallWUAUpdate install_platform (install_session False) (IUpdate (Some (ComPtr 1 sample_update)))
          session_world = (Return (Some err), w') \<and>
        (\<exists>ev\<in>set (new_events session_world w'). is_call ''Download'' ev \<and> failed_call ev) \<and>
        (\<forall>ev\<in>set (new_events session_world w'). \<not> download_ok ev)"
  by (simp add: install_defs sample_defs vt_defs)

theorem InstallWUAUpdate_accepts_eula_once_witness:
  "(\<exists>w'. InstallWUAUpdate install_platform (install_session True) (IUpdate (Some (ComPtr 1 sample_update)))
          session_world = (Return None, w') \<and>
        length (filter (is_call ''AcceptEula'') (new_events session_world w')) = 1 \<and>
        guarded (is_call ''AcceptEula'') download_phase False (new_events session_world w')) \<and>
   (\<exists>w'. InstallWUAUpdate install_platform (install_session True) (IUpdate (Some (ComPtr 1 licensed_update)))
          session_world = (Return None, w') \<and>
        filter (is_call ''AcceptEula'') (new_events session_world w') = [])"
proof -
  from run_unlicensed obtain w1 where
    1: "InstallWUAUpdate install_platform (install_session True) (IUpdate (Some (ComPtr 1 sample_update)))
          session_world = (Return None, w1)"
       "PropertyGet 1 ''EulaAccepted'' [] (Got VT_BOOL 0 None) \<in> set (new_events session_world w1)"
    by blast
  from run_licensed obtain w2 where
    2: "InstallWUAUpdate install_platform (install_session True) (IUpdate (Some (ComPtr 1 licensed_update)))
          session_world = (Return None, w2)"
       "PropertyGet 1 ''EulaAccepted'' [] (Got VT_BOOL 0xFFFF None) \<in> set (new_events session_world w2)"
    by blast
  from InstallWUAUpdate_accepts_eula_once [OF 1] InstallWUAUpdate_accepts_eula_once [OF 2] 1(1) 2(1)
  show ?thesis
    by simp
qed

theorem InstallWUAUpdate_downloads_first_witness:
  "(\<exists>w'. InstallWUAUpdate install_platform (install_session True) (IUpdate (Some (ComPtr 1 sample_update)))
          session_world = (Return None, w') \<and>
        guarded download_ok (is_call ''Install'') False (new_events session_world w') \<and>
        (\<exists>ev\<in>set (new_events session_world w'). is_call ''Install'' ev)) \<and>
   (\<exists>err w'. InstallWUAUpdate install_platform (install_session False) (IUpdate (Some (ComPtr 1 sample_update)))
          session_world = (Return (Some err), w') \<and>
        (\<exists>ev\<in>set (new_events session_world w'). is_call ''Download'' ev \<and> failed_call ev) \<and>
        filter (is_call ''Install'') (new_events session_world w') = [])"
proof -
  from run_unlicensed obtain w1 where
    1: "InstallWUAUpdate install_platform (install_session True) (IUpdate (Some (ComPtr 1 sample_update)))
          session_world = (Return None, w1)"
       "\<exists>ev\<in>set (new_events session_world w1). is_call ''Install'' ev"
    by blast
  from run_failed_download obtain err w2 where
    2: "InstallWUAUpdate install_platform (install_session False) (IUpdate (Some (ComPtr 1 sample_update)))
          session_world = (Return (Some err), w2)"
       "\<exists>ev\<in>set (new_events session_world w2). is_call ''Download'' ev \<and> failed_call ev"
       "\<forall>ev\<in>set (new_events session_world w2). \<not> download_ok ev"
    by blast
  from InstallWUAUpdate_downloads_first [OF 2(1)] 2(3)
  have "filter (is_call ''Install'') (new_events session_world w2) = []"
    by simp
  with InstallWUAUpdate_downloads_first [OF 1(1)] 1 2 show ?thesis
    by blast
qed

section \<open>The references of a search\<close>

lemmas search_defs = WUAUpdates_def NewUpdateSession_def wuaSession_Lock_def coInitializeEx_def
        CreateObject_def QueryInterface_def GetWUAUpdateCollection_def Close_def
        wuaSession_Unlock_def CoUninitialize_call_def
        WUAUpdates_body_def Count_def WUAUpdates_loop.simps run_defs idle_world_def

text \<open>
  C9 says that every reference acquired during a search is released exactly once when
  \<open>WUAUpdates\<close> returns. The code does not do that: \<open>NewUpdateSession\<close> never releases
  the reference that \<open>oleutil.CreateObject\<close> returns when the query for the dispatch
  interface succeeds (it releases it only when the query fails, and \<open>NewUpdateCollection\<close>
  defers the release of its own). In the search below, which finds one update and
  extracts it, the reference 0 is the one \<open>CreateObject\<close> returned: it is not released,
  and it is the only one; no reference is released twice.
\<close>

theorem WUAUpdates_leaks_session_object:
  "\<exists>w'. WUAUpdates (search_platform (collection_of [dispatch sample_update]) (\<lambda>d. Inr 0))
          ''IsInstalled=0'' idle_world = Some (Return ([sample_package 0], None), w') \<and>
        Created ''Microsoft.Update.Session'' (Some 0) \<in> set (trace w') \<and>
        Released 0 \<notin> set (trace w') \<and>
        leaked (trace w') = [0] \<and>
        distinct (releases (trace w'))"
  by (simp add: search_defs sample_defs vt_defs sample_package_def leaked_def releases_def
        List.map_filter_simps)

text \<open>The same holds when the extraction fails in the middle of the loop: the second
  of two updates cannot be read; the reference 0 is the only one left.\<close>

lemma WUAUpdates_leaks_on_failure:
  "\<exists>err w'. WUAUpdates
          (search_platform (collection_of [dispatch sample_update, dispatch broken_update]) (\<lambda>d. Inr 0))
          ''IsInstalled=0'' idle_world = Some (Return ([], Some err), w') \<and>
        leaked (trace w') = [0] \<and>
        distinct (releases (trace w'))"
  by (simp add: search_defs sample_defs vt_defs broken_update_def leaked_def releases_def
        List.map_filter_simps)

end
